theory Spec2Isabelle
  imports Complex_Main "HOL-Library.Word"
begin

section \<open>JavaScript numbers\<close>

text \<open>
  A JavaScript number is an IEEE 754 double. The model keeps the special values apart
  and takes a finite value as the rational it denotes. The sum, the product and the
  quotient of two finite numbers are the exact results rounded to the nearest double,
  a tie going to the double with the even significand: 53 bits of significand,
  exponents from \<open>-1022\<close> (below it the spacing of the denormal numbers, \<open>2^-1074\<close>)
  and an overflow to an infinity from \<open>2^1024\<close> on. Zero is the positive zero (no
  operand of the program is a negative zero: speeds and byte counts start from \<open>0\<close>
  and only grow).
\<close>

datatype jsnum = Fin rat | PInf | NInf | NaN

text \<open>The number of binary digits of a natural number.\<close>

fun bit_length :: "nat \<Rightarrow> nat" where
  "bit_length n = (if n = 0 then 0 else Suc (bit_length (n div 2)))"

declare bit_length.simps [simp del]

text \<open>The exponent \<open>e\<close> of a positive rational \<open>q\<close>: \<open>2^e \<le> q < 2^(e+1)\<close>.\<close>

definition exponent_of :: "rat \<Rightarrow> int" where
  "exponent_of q =
     (if 1 \<le> q then int (bit_length (nat \<lfloor>q\<rfloor>)) - 1
      else - int (bit_length (nat (\<lceil>1 / q\<rceil> - 1))))"

definition round_half_even :: "rat \<Rightarrow> int" where
  "round_half_even x =
     (let n = \<lfloor>x\<rfloor>; r = x - of_int n
      in if r < 1 / 2 then n
         else if 1 / 2 < r then n + 1
         else if even n then n else n + 1)"

text \<open>
  A positive rational rounded to a multiple of the unit in the last place of its
  binade, and the double nearest to a rational.
\<close>

definition double_exponent :: "rat \<Rightarrow> int" where
  "double_exponent q = max (exponent_of q) (- 1022)"

definition nearest_pos :: "rat \<Rightarrow> rat" where
  "nearest_pos q =
     of_int (round_half_even (q / 2 powi (double_exponent q - 52)))
       * 2 powi (double_exponent q - 52)"

definition nearest_double :: "rat \<Rightarrow> jsnum" where
  "nearest_double q =
     (if q = 0 then Fin 0
      else if 2 powi 1024 \<le> nearest_pos \<bar>q\<bar> then (if 0 < q then PInf else NInf)
      else Fin (if 0 < q then nearest_pos \<bar>q\<bar> else - nearest_pos \<bar>q\<bar>))"

text \<open>
  An integer as a number: a literal of the program, a length, a file size. It is the
  integer itself when its magnitude is below \<open>2^53\<close>.
\<close>

definition js_int :: "int \<Rightarrow> jsnum" where
  "js_int i = nearest_double (of_int i)"

definition js_nat :: "nat \<Rightarrow> jsnum" where
  "js_nat n = nearest_double (of_nat n)"

fun js_neg :: "jsnum \<Rightarrow> jsnum" where
  "js_neg (Fin a) = Fin (- a)"
| "js_neg PInf = NInf"
| "js_neg NInf = PInf"
| "js_neg NaN = NaN"

fun js_add :: "jsnum \<Rightarrow> jsnum \<Rightarrow> jsnum" where
  "js_add NaN _ = NaN"
| "js_add _ NaN = NaN"
| "js_add (Fin a) (Fin b) = nearest_double (a + b)"
| "js_add PInf NInf = NaN"
| "js_add NInf PInf = NaN"
| "js_add PInf _ = PInf"
| "js_add _ PInf = PInf"
| "js_add NInf _ = NInf"
| "js_add _ NInf = NInf"

definition js_sub :: "jsnum \<Rightarrow> jsnum \<Rightarrow> jsnum" where
  "js_sub x y = js_add x (js_neg y)"

fun js_mul :: "jsnum \<Rightarrow> jsnum \<Rightarrow> jsnum" where
  "js_mul NaN _ = NaN"
| "js_mul _ NaN = NaN"
| "js_mul (Fin a) (Fin b) = nearest_double (a * b)"
| "js_mul (Fin a) PInf = (if a = 0 then NaN else if 0 < a then PInf else NInf)"
| "js_mul (Fin a) NInf = (if a = 0 then NaN else if 0 < a then NInf else PInf)"
| "js_mul PInf (Fin b) = (if b = 0 then NaN else if 0 < b then PInf else NInf)"
| "js_mul NInf (Fin b) = (if b = 0 then NaN else if 0 < b then NInf else PInf)"
| "js_mul PInf PInf = PInf"
| "js_mul PInf NInf = NInf"
| "js_mul NInf PInf = NInf"
| "js_mul NInf NInf = PInf"

fun js_div :: "jsnum \<Rightarrow> jsnum \<Rightarrow> jsnum" where
  "js_div NaN _ = NaN"
| "js_div _ NaN = NaN"
| "js_div (Fin a) (Fin b) =
     (if b = 0 then (if a = 0 then NaN else if 0 < a then PInf else NInf)
      else nearest_double (a / b))"
| "js_div (Fin a) PInf = Fin 0"
| "js_div (Fin a) NInf = Fin 0"
| "js_div PInf (Fin b) = (if 0 \<le> b then PInf else NInf)"
| "js_div NInf (Fin b) = (if 0 \<le> b then NInf else PInf)"
| "js_div PInf PInf = NaN"
| "js_div PInf NInf = NaN"
| "js_div NInf PInf = NaN"
| "js_div NInf NInf = NaN"

text \<open>\<open>x <= y\<close> and \<open>x < y\<close>: every comparison with \<open>NaN\<close> is false.\<close>

fun js_le :: "jsnum \<Rightarrow> jsnum \<Rightarrow> bool" where
  "js_le NaN _ = False"
| "js_le _ NaN = False"
| "js_le (Fin a) (Fin b) = (a \<le> b)"
| "js_le NInf _ = True"
| "js_le _ PInf = True"
| "js_le _ _ = False"

fun js_lt :: "jsnum \<Rightarrow> jsnum \<Rightarrow> bool" where
  "js_lt NaN _ = False"
| "js_lt _ NaN = False"
| "js_lt (Fin a) (Fin b) = (a < b)"
| "js_lt NInf NInf = False"
| "js_lt PInf PInf = False"
| "js_lt NInf _ = True"
| "js_lt _ PInf = True"
| "js_lt _ _ = False"

definition js_ge :: "jsnum \<Rightarrow> jsnum \<Rightarrow> bool" where
  "js_ge x y = js_le y x"

definition js_gt :: "jsnum \<Rightarrow> jsnum \<Rightarrow> bool" where
  "js_gt x y = js_lt y x"

fun js_isNaN :: "jsnum \<Rightarrow> bool" where
  "js_isNaN NaN = True"
| "js_isNaN _ = False"

text \<open>
  \<open>Math.floor\<close>, and \<open>Math.round\<close>, which rounds a tie towards \<open>+\<infinity>\<close>. Both are
  exact: the floor of a double is a double.
\<close>

fun js_floor :: "jsnum \<Rightarrow> jsnum" where
  "js_floor (Fin a) = Fin (of_int \<lfloor>a\<rfloor>)"
| "js_floor x = x"

fun js_round :: "jsnum \<Rightarrow> jsnum" where
  "js_round (Fin a) = Fin (of_int \<lfloor>a + 1 / 2\<rfloor>)"
| "js_round x = x"

section \<open>Strings\<close>

text \<open>
  A string is a list of code units; the model's \<open>char\<close> has the code units below 256.
  \<open>show_nat\<close> is the decimal numeral JavaScript prints for a non-negative integer, as
  in the template \<open>`${finalName}${i}`\<close>.
\<close>

definition digit_char :: "nat \<Rightarrow> char" where
  "digit_char d = ''0123456789'' ! d"

fun show_nat :: "nat \<Rightarrow> string" where
  "show_nat n =
     (if n < 10 then [digit_char n]
      else show_nat (n div 10) @ [digit_char (n mod 10)])"

declare show_nat.simps [simp del]

definition show_int :: "int \<Rightarrow> string" where
  "show_int i = (if i < 0 then CHR ''-'' # show_nat (nat (- i)) else show_nat (nat i))"

section \<open>The range partition of \<open>Prometeo.download\<close>\<close>

text \<open>
  \<open>manager.ts\<close>, lines 348 to 359: one entry per index \<open>i\<close> of
  \<open>new Array(connections)\<close>. The object built by \<open>Object.fromEntries\<close> is kept as
  the list of its entries, in the order of its integer keys. \<open>resolve\<close> is Node's
  \<open>path.resolve\<close>, a parameter of the model. The count of connections is an integer;
  \<open>new Array\<close> throws a \<open>RangeError\<close> for a length of \<open>2^32\<close> or more, which
  \<open>download\<close> below passes on before any entry is built.
\<close>

type_synonym Range = "jsnum \<times> jsnum"

type_synonym Part = "(nat \<times> (string \<times> Range)) list"

definition part_entry ::
  "(string \<Rightarrow> string \<Rightarrow> string) \<Rightarrow> string \<Rightarrow> string \<Rightarrow> jsnum \<Rightarrow> nat \<Rightarrow> nat
     \<Rightarrow> nat \<times> (string \<times> Range)" where
  "part_entry resolve tempDir finalName size' connections i =
     (let sliceSize = js_floor (js_div size' (js_nat connections));
          startByte = js_mul (js_nat i) sliceSize;
          endByte = (if int i = int connections - 1 then js_sub size' (js_int 1)
                     else js_sub (js_add startByte sliceSize) (js_int 1));
          currentRange = (startByte, endByte)
      in (i, (resolve tempDir (finalName @ show_nat i), currentRange)))"

definition build_parts ::
  "(string \<Rightarrow> string \<Rightarrow> string) \<Rightarrow> string \<Rightarrow> string \<Rightarrow> jsnum \<Rightarrow> nat \<Rightarrow> Part" where
  "build_parts resolve tempDir finalName size' connections =
     map (part_entry resolve tempDir finalName size' connections) [0..<connections]"

definition range_start :: "nat \<times> (string \<times> Range) \<Rightarrow> jsnum" where
  "range_start p = fst (snd (snd p))"

definition range_end :: "nat \<times> (string \<times> Range) \<Rightarrow> jsnum" where
  "range_end p = snd (snd (snd p))"

text \<open>The number of bytes of a range, \<open>end - start + 1\<close>, and the sum over a plan.\<close>

definition range_length :: "nat \<times> (string \<times> Range) \<Rightarrow> jsnum" where
  "range_length p = js_add (js_sub (range_end p) (range_start p)) (js_int 1)"

definition total_length :: "Part \<Rightarrow> jsnum" where
  "total_length ps = foldl js_add (js_int 0) (map range_length ps)"

section \<open>Errors, the file system and the platform\<close>

text \<open>
  \<open>utils/errors\<close>: a \<open>PrometeoError\<close> has one of four names and a message (its cause
  is not kept). Any other exception of the platform (a rejected \<open>fetch\<close>, a failing
  \<open>statSync\<close>) is a \<open>NativeError\<close>.
\<close>

datatype ErrorName = InvalidArgumentError | BadMetadataError | BadURLError | InternalError

datatype exn = PrometeoError ErrorName string | NativeError string

text \<open>
  What \<open>fs\<close> answers: \<open>statSync\<close> per path (none when the path does not exist) and
  the bytes of each regular file.
\<close>

type_synonym byte = "8 word"

record stat =
  st_isFile :: bool
  st_isDirectory :: bool
  st_size :: nat

record fs =
  fs_stat :: "string \<Rightarrow> stat option"
  fs_data :: "string \<Rightarrow> byte list"

definition existsSync :: "fs \<Rightarrow> string \<Rightarrow> bool" where
  "existsSync fsys p = (fs_stat fsys p \<noteq> None)"

definition isFile :: "fs \<Rightarrow> string \<Rightarrow> bool" where
  "isFile fsys p = (case fs_stat fsys p of Some st \<Rightarrow> st_isFile st | None \<Rightarrow> False)"

definition writeFileSync :: "fs \<Rightarrow> string \<Rightarrow> byte list \<Rightarrow> fs" where
  "writeFileSync fsys p bytes =
     fsys\<lparr>fs_stat := (fs_stat fsys)(p \<mapsto>
              \<lparr>st_isFile = True, st_isDirectory = False, st_size = length bytes\<rparr>),
           fs_data := (fs_data fsys)(p := bytes)\<rparr>"

text \<open>The response of the \<open>HEAD\<close> request: \<open>res.ok\<close> and \<open>res.headers.get\<close>.\<close>

record Response =
  ok :: bool
  headers :: "string \<Rightarrow> string option"

text \<open>
  \<open>FileOptions\<close> (\<open>lib/file\<close>, lines 19 to 30), the plan of a download. The optional
  \<open>resumed\<close> is absent (\<open>None\<close>) or a boolean.
\<close>

record FileOptions =
  o_url :: string
  o_path :: string
  o_name :: string
  o_size :: jsnum
  o_parts :: Part
  o_resumed :: "bool option"
  o_speed :: jsnum
  o_destination :: string
  o_contentType :: string
  o_finished :: bool

text \<open>
  The functions of the platform and of the libraries the program calls, which the model
  takes as they are: \<open>new URL(url)\<close> (whether it parses), \<open>Number(string)\<close>,
  the printing of a number that is not an integer below \<open>10^21\<close>, \<open>path.resolve\<close>,
  \<open>path.extname\<close>, \<open>mkdirp.sync\<close> (whether it succeeds),
  \<open>crypto.randomBytes(16).toString("hex")\<close>, \<open>JSON.stringify\<close> and \<open>JSON.parse\<close>
  on a \<open>FileOptions\<close> object, \<open>StreamSpeed.toHuman\<close>, \<open>x.toFixed(2)\<close>,
  \<open>utils.inspect\<close> of an error (given by its message), and the two header readers
  \<open>getFileType\<close> and \<open>getFileName\<close> of \<open>utils/url\<close>, which compute a string from the
  URL and the response and never throw on a URL that parses.
\<close>

record host =
  url_parses :: "string \<Rightarrow> bool"
  string_to_number :: "string \<Rightarrow> jsnum"
  show_other_number :: "rat \<Rightarrow> string"
  resolve :: "string \<Rightarrow> string \<Rightarrow> string"
  extname :: "string \<Rightarrow> string"
  mkdirp_ok :: "fs \<Rightarrow> string \<Rightarrow> bool"
  randomHex :: string
  json_stringify :: "FileOptions \<Rightarrow> string"
  json_parse :: "string \<Rightarrow> FileOptions option"
  toHuman :: "jsnum \<Rightarrow> string"
  toFixed2 :: "jsnum \<Rightarrow> string"
  inspect :: "string \<Rightarrow> string"
  getFileType :: "string \<Rightarrow> Response \<Rightarrow> string"
  getFileName :: "string \<Rightarrow> Response \<Rightarrow> string"

definition mkdirp_sync :: "host \<Rightarrow> fs \<Rightarrow> string \<Rightarrow> fs option" where
  "mkdirp_sync h fsys p =
     (if mkdirp_ok h fsys p
      then Some (fsys\<lparr>fs_stat := (fs_stat fsys)(p \<mapsto>
              \<lparr>st_isFile = False, st_isDirectory = True, st_size = 0\<rparr>)\<rparr>)
      else None)"

text \<open>
  \<open>if (!fs.existsSync(p)) mkdirp.sync(p)\<close>: the file system after it, or none when
  \<open>mkdirp.sync\<close> threw.
\<close>

definition ensure_dir :: "host \<Rightarrow> fs \<Rightarrow> string \<Rightarrow> fs option" where
  "ensure_dir h fsys p = (if \<not> existsSync fsys p then mkdirp_sync h fsys p else Some fsys)"

text \<open>
  \<open>String(x)\<close> for a number, as string concatenation and templates apply it: an integer
  below \<open>10^21\<close> in absolute value prints as its decimal numeral.
\<close>

definition js_to_string :: "host \<Rightarrow> jsnum \<Rightarrow> string" where
  "js_to_string h x =
     (case x of
        NaN \<Rightarrow> ''NaN''
      | PInf \<Rightarrow> ''Infinity''
      | NInf \<Rightarrow> ''-Infinity''
      | Fin q \<Rightarrow>
          if q = of_int \<lfloor>q\<rfloor> \<and> \<bar>q\<bar> < 10 ^ 21 then show_int \<lfloor>q\<rfloor>
          else show_other_number h q)"

text \<open>
  \<open>s.trim() === ""\<close>: every code unit of \<open>s\<close> is white space (the white space below
  256: tab, line feed, vertical tab, form feed, carriage return, space, no-break space).
\<close>

definition js_whitespace :: "char \<Rightarrow> bool" where
  "js_whitespace c = (of_char c \<in> {9, 10, 11, 12, 13, 32, 160 :: nat})"

definition trim_is_empty :: "string \<Rightarrow> bool" where
  "trim_is_empty s = list_all js_whitespace s"

text \<open>\<open>s.replace(pat, "")\<close> with a string pattern: the first occurrence is removed.\<close>

fun remove_first :: "string \<Rightarrow> string \<Rightarrow> string" where
  "remove_first pat [] = []"
| "remove_first pat (c # cs) =
     (if take (length pat) (c # cs) = pat then drop (length pat) (c # cs)
      else c # remove_first pat cs)"

section \<open>The URL prober (\<open>utils/url\<close>)\<close>

record URLData =
  u_fileType :: string
  u_size :: jsnum
  u_acceptRange :: bool
  u_fileName :: string
  u_contentType :: string

definition URLUtils_validate :: "host \<Rightarrow> string \<Rightarrow> bool" where
  "URLUtils_validate h url = url_parses h url"

text \<open>\<open>/^[a-zA-Z0-9\.\-\_]+$/.test(filename)\<close>\<close>

definition filename_char :: "char \<Rightarrow> bool" where
  "filename_char c =
     (let n = of_char c :: nat in
        (97 \<le> n \<and> n \<le> 122) \<or> (65 \<le> n \<and> n \<le> 90) \<or> (48 \<le> n \<and> n \<le> 57) \<or>
        c = CHR ''.'' \<or> c = CHR ''-'' \<or> c = CHR ''_'')"

definition isValidFileName :: "string \<Rightarrow> bool" where
  "isValidFileName filename = (filename \<noteq> [] \<and> list_all filename_char filename)"

definition generateFilename :: "host \<Rightarrow> string \<Rightarrow> string" where
  "generateFilename h ext = randomHex h @ ext"

text \<open>\<open>Number(v)\<close> for a header value: \<open>null\<close> converts to \<open>0\<close>.\<close>

definition js_Number :: "host \<Rightarrow> string option \<Rightarrow> jsnum" where
  "js_Number h v = (case v of None \<Rightarrow> Fin 0 | Some s \<Rightarrow> string_to_number h s)"

text \<open>
  \<open>getData\<close>, lines 69 to 96. \<open>fetched\<close> is what the \<open>HEAD\<close> request gave: no
  response when \<open>fetch\<close> rejected.
\<close>

definition getData :: "host \<Rightarrow> string \<Rightarrow> Response option \<Rightarrow> exn + URLData" where
  "getData h url fetched =
     (case fetched of
        None \<Rightarrow> Inl (NativeError ''fetch failed'')
      | Some res \<Rightarrow>
          if \<not> ok res
          then Inl (PrometeoError InvalidArgumentError
                      ''The url entered returned an incorrect response'')
          else
            let contentType = (case headers res ''content-type'' of Some v \<Rightarrow> v | None \<Rightarrow> '''');
                size0 = js_Number h (headers res ''content-length'');
                size1 = (if js_isNaN size0 then Fin 0 else size0);
                acceptRange = (headers res ''accept-ranges'' = Some ''bytes'');
                fileType = getFileType h url res;
                fileName = getFileName h url res
            in Inr \<lparr>u_fileType = fileType, u_size = size1, u_acceptRange = acceptRange,
                     u_fileName = fileName, u_contentType = contentType\<rparr>)"

section \<open>The manifest codec (\<open>lib/file\<close>)\<close>

text \<open>
  \<open>Buffer.from(s)\<close> and \<open>buf.toString("utf-8")\<close>: UTF-8, for the code units of the
  model. A code unit below 128 is one byte, one from 128 to 255 is two bytes. Decoding
  gives no string where the bytes decode to a code point outside the model or are not
  UTF-8 (Node would put U+FFFD there).
\<close>

definition utf8_encode_char :: "char \<Rightarrow> byte list" where
  "utf8_encode_char c =
     (let n = of_char c :: nat in
        if n < 128 then [of_nat n]
        else [of_nat (192 + n div 64), of_nat (128 + n mod 64)])"

definition utf8_encode :: "string \<Rightarrow> byte list" where
  "utf8_encode s = concat (map utf8_encode_char s)"


text \<open>\<open>buf.toString("hex")\<close>: two lowercase hexadecimal digits per byte.\<close>

definition hex_digit :: "nat \<Rightarrow> char" where
  "hex_digit n = ''0123456789abcdef'' ! n"

definition hex_encode :: "byte list \<Rightarrow> string" where
  "hex_encode bs = concat (map (\<lambda>b. [hex_digit (unat b div 16), hex_digit (unat b mod 16)]) bs)"



text \<open>
  The constructor's \<open>Buffer.from(JSON.stringify(download)).reverse().toString("hex")\<close>
  (line 150), and the decoding of \<open>File.validate\<close> (lines 564 to 570) from the bytes of
  the file: \<open>Buffer.from(bytes.toString("utf-8"), "hex").reverse().toString("utf-8")\<close>,
  then \<open>JSON.parse\<close>.
\<close>

definition encode_manifest :: "host \<Rightarrow> FileOptions \<Rightarrow> string" where
  "encode_manifest h download = hex_encode (rev (utf8_encode (json_stringify h download)))"



section \<open>Connections, the log writer and the download (\<open>File\<close>)\<close>

text \<open>
  The \<open>Throttle\<close> of \<open>stream-throttle\<close>, as far as the program touches it: its
  \<open>chunksize\<close> and its token bucket (\<open>bucketSize\<close>, \<open>tokensPerInterval\<close>). The
  library builds it from a rate with a chunk of a tenth of the rate and a bucket of the
  rate.
\<close>

record Throttle =
  th_chunksize :: jsnum
  th_bucket :: "(jsnum \<times> jsnum) option"

definition new_Throttle :: "jsnum \<Rightarrow> Throttle" where
  "new_Throttle rate = \<lparr>th_chunksize = js_div rate (js_int 10), th_bucket = Some (rate, rate)\<rparr>"

text \<open>
  \<open>Connection\<close> (\<open>lib/connection\<close>): its fields, with the two locals of \<open>start\<close> that
  its callbacks keep using, \<open>partSize\<close> and \<open>throttle\<close> (none before \<open>start\<close> made it).
\<close>

record Connection =
  c_file :: string
  c_url :: string
  c_speedLimit :: jsnum
  c_range :: Range
  c_speed :: jsnum
  c_index :: nat
  c_progress :: jsnum
  c_finished :: bool
  c_stopped :: bool
  c_totalDownloaded :: jsnum
  c_partSize :: nat
  c_throttle :: "Throttle option"

text \<open>
  \<open>Writer\<close> (\<open>utils/writeStream\<close>): the count of pending writes, the data handed to
  the stream, and its listeners. A listener is a pair of the event name it was
  registered under and the closure: the one \<open>File.stop\<close> registers (for the promise
  of that call) or the one the progress interval registers.
\<close>

datatype writer_listener = StopDrained nat | IntervalFinish

record Writer =
  w_pendingWrites :: int
  w_data :: "string list"
  w_listeners :: "(string \<times> writer_listener) list"

definition new_Writer :: Writer where
  "new_Writer = \<lparr>w_pendingWrites = 0, w_data = [], w_listeners = []\<rparr>"

definition Writer_write :: "string \<Rightarrow> Writer \<Rightarrow> Writer" where
  "Writer_write d w = w\<lparr>w_pendingWrites := w_pendingWrites w + 1, w_data := w_data w @ [d]\<rparr>"

definition Writer_stop :: "Writer \<Rightarrow> Writer" where
  "Writer_stop w = w\<lparr>w_pendingWrites := 0\<rparr>"

definition Writer_on :: "string \<Rightarrow> writer_listener \<Rightarrow> Writer \<Rightarrow> Writer" where
  "Writer_on ev l w = w\<lparr>w_listeners := w_listeners w @ [(ev, l)]\<rparr>"

text \<open>
  \<open>File\<close>: its fields. The \<open>Connection\<close> objects live in \<open>f_heap\<close>, in the order of
  their creation, and \<open>connections\<close> holds references (indices) to them, since a
  connection removed from \<open>connections\<close> is still reached by the listeners it
  registered. \<open>f_listeners\<close> are the listeners the connections registered on the
  \<open>File\<close>, \<open>f_inter\<close> tells whether the progress interval is set, and
  \<open>f_stopPromises\<close> has one entry per call of \<open>stop\<close>: whether its promise is
  resolved. \<open>f_waitingLog\<close> is the local \<open>waitingLog\<close> of \<open>start\<close>.
\<close>

datatype file_listener = ConnSpeed nat | ConnStop nat

record File =
  f_url :: string
  f_path :: string
  f_name :: string
  f_size :: jsnum
  f_progress :: jsnum
  f_parts :: Part
  f_logStream :: Writer
  f_connections :: "nat list"
  f_speed :: jsnum
  f_inter :: bool
  f_contentType :: string
  f_stoped :: bool
  f_destination :: string
  f_allConfig :: FileOptions
  f_heap :: "Connection list"
  f_listeners :: "(string \<times> file_listener) list"
  f_stopPromises :: "bool list"
  f_waitingLog :: bool

text \<open>
  \<open>File.log\<close>: one write to the log stream. The timestamp the program puts before the
  message is left out.
\<close>

definition File_log :: "string \<Rightarrow> File \<Rightarrow> File" where
  "File_log message f = f\<lparr>f_logStream := Writer_write (message @ [CHR 0x0A]) (f_logStream f)\<rparr>"

text \<open>
  The constructor (lines 53 to 162). The arguments are typed, so each \<open>typeof\<close> test
  is false. \<open>init_File\<close> is the assignments of lines 125 to 139. For a resumed
  download the constructor also starts \<open>revalidateURL\<close>, whose log lines come later
  and are not part of the construction.
\<close>

definition init_File :: "FileOptions \<Rightarrow> File" where
  "init_File download =
     \<lparr>f_url = o_url download, f_path = o_path download,
      f_name = o_name download, f_size = o_size download,
      f_progress = js_int 0, f_parts = o_parts download,
      f_logStream = new_Writer, f_connections = [],
      f_speed = o_speed download, f_inter = False,
      f_contentType = o_contentType download, f_stoped = False,
      f_destination = o_destination download, f_allConfig = download,
      f_heap = [], f_listeners = [], f_stopPromises = [],
      f_waitingLog = False\<rparr>"

definition File_new :: "host \<Rightarrow> fs \<Rightarrow> FileOptions \<Rightarrow> exn + (File \<times> fs)" where
  "File_new h fsys download =
     (if trim_is_empty (o_url download)
      then Inl (PrometeoError InvalidArgumentError ''The URL must be a non-empty string.'')
      else if trim_is_empty (o_path download)
      then Inl (PrometeoError InvalidArgumentError ''The path must be a non-empty string.'')
      else if trim_is_empty (o_destination download)
      then Inl (PrometeoError InvalidArgumentError ''The destination must be a non-empty string.'')
      else if trim_is_empty (o_name download)
      then Inl (PrometeoError InvalidArgumentError ''The name must be a non-empty string.'')
      else if trim_is_empty (o_contentType download)
      then Inl (PrometeoError InvalidArgumentError ''The contentType must be a non-empty string.'')
      else if js_le (o_size download) (js_int 0)
      then Inl (PrometeoError InvalidArgumentError ''The size must be a positive number.'')
      else if js_le (o_speed download) (js_int 0)
      then Inl (PrometeoError InvalidArgumentError ''The speed must be a positive number.'')
      else
        (case ensure_dir h fsys (o_path download) of
           None \<Rightarrow> Inl (PrometeoError InternalError
             ''An error occurred while trying to create the temporary folder for the file.'')
         | Some fs1 \<Rightarrow>
             let this = init_File download
             in if o_resumed download \<noteq> Some True
                then Inr (File_log (''Size: '' @ js_to_string h (f_size this))
                           (File_log (''Name: '' @ f_name this)
                           (File_log (''Path: '' @ f_path this)
                           (File_log (''URL: '' @ f_url this)
                           (File_log ''Starting Download'' this)))),
                          writeFileSync fs1 (resolve h (f_path this) ''./prometeo.config'')
                            (utf8_encode (encode_manifest h download)))
                else Inr (File_log ''Revalidating URL'' (File_log ''Restarting download'' this),
                          fs1)))"

section \<open>\<open>Prometeo.download\<close> (\<open>lib/manager\<close>)\<close>

record Prometeo =
  m_connections :: nat
  m_tempDir :: string
  m_userAgent :: string
  m_speedLimit :: jsnum
  m_downloads :: "File list"

record DownloadArgs =
  a_url :: string
  a_path :: string
  a_filename :: "string option"

text \<open>
  The optional \<open>filename\<close> is truthy when it is there and not empty;
  \<open>or_else v d\<close> is \<open>v || d\<close>.
\<close>

definition truthy :: "string option \<Rightarrow> bool" where
  "truthy v = (case v of Some s \<Rightarrow> s \<noteq> [] | None \<Rightarrow> False)"

definition or_else :: "string option \<Rightarrow> string \<Rightarrow> string" where
  "or_else v d = (case v of Some s \<Rightarrow> if s \<noteq> [] then s else d | None \<Rightarrow> d)"

text \<open>
  The file type and the final name of a download (lines 322 to 328), and its
  destination (line 334).
\<close>

definition fileType_of :: "host \<Rightarrow> DownloadArgs \<Rightarrow> URLData \<Rightarrow> string" where
  "fileType_of h options URLData =
     (if truthy (a_filename options) then extname h (or_else (a_filename options) [])
      else u_fileType URLData)"

definition finalName_of :: "host \<Rightarrow> DownloadArgs \<Rightarrow> URLData \<Rightarrow> string" where
  "finalName_of h options URLData =
     (let finalName = or_else (a_filename options) (u_fileName URLData)
      in if \<not> isValidFileName finalName
         then generateFilename h (fileType_of h options URLData) else finalName)"

definition destination_of :: "host \<Rightarrow> DownloadArgs \<Rightarrow> URLData \<Rightarrow> string" where
  "destination_of h options URLData =
     resolve h (a_path options) (finalName_of h options URLData)"

text \<open>
  \<open>download\<close> (lines 264 to 382). \<open>fetched\<close> is the outcome of the \<open>HEAD\<close> request
  of \<open>getData\<close>. The result is the exception the promise rejects with, or the new
  \<open>File\<close> with the manager and the file system after the call. \<open>new Array(connections)\<close>
  (line 349) throws for a length that is not below \<open>2^32\<close>.
\<close>

definition download ::
  "host \<Rightarrow> fs \<Rightarrow> Response option \<Rightarrow> Prometeo \<Rightarrow> DownloadArgs \<Rightarrow> exn + (File \<times> Prometeo \<times> fs)" where
  "download h fsys fetched this options =
     (if length (a_url options) = 0
      then Inl (PrometeoError InvalidArgumentError ''The URL must be a non-empty string.'')
      else if truthy (a_filename options) \<and> length (or_else (a_filename options) []) = 0
      then Inl (PrometeoError InvalidArgumentError ''The filename must be a non-empty string.'')
      else if length (a_path options) = 0
      then Inl (PrometeoError InvalidArgumentError ''The path must be a non-empty string.'')
      else if \<not> URLUtils_validate h (a_url options)
      then Inl (PrometeoError BadURLError ''The URL is invalid.'')
      else
        (case getData h (a_url options) fetched of
           Inl e \<Rightarrow> Inl (PrometeoError BadURLError ''The URL returned an incorrect answer.'')
         | Inr URLData \<Rightarrow>
             if \<not> u_acceptRange URLData
             then Inl (PrometeoError BadURLError ''The URL does not accept range requests.'')
             else
               (case ensure_dir h fsys (a_path options) of
                  None \<Rightarrow> Inl (PrometeoError InternalError
                    ''An error occurred while trying to create the temporary folder for the file.'')
                | Some fs1 \<Rightarrow>
                    let fileType = fileType_of h options URLData;
                        finalName = finalName_of h options URLData;
                        tempDir = resolve h (m_tempDir this) (remove_first fileType finalName);
                        path = destination_of h options URLData
                    in if existsSync fs1 path \<and> isFile fs1 path
                       then Inl (PrometeoError InvalidArgumentError
                                   ''The path already exists. Delete the file or rename it.'')
                       else
                         let connections = m_connections this
                         in if 2 ^ 32 \<le> connections
                            then Inl (NativeError ''RangeError: Invalid array length'')
                            else
                         let parts = build_parts (resolve h) tempDir finalName
                                       (u_size URLData) connections
                         in (case File_new h fs1
                                    \<lparr>o_url = a_url options, o_path = tempDir, o_name = finalName,
                                     o_size = u_size URLData, o_parts = parts, o_resumed = None,
                                     o_speed = m_speedLimit this, o_destination = path,
                                     o_contentType = u_contentType URLData,
                                     o_finished = False\<rparr> of
                               Inl e \<Rightarrow> Inl e
                             | Inr (file, fs2) \<Rightarrow>
                                 Inr (file, this\<lparr>m_downloads := m_downloads this @ [file]\<rparr>,
                                      fs2)))))"

section \<open>\<open>Connection.start\<close> (\<open>lib/connection\<close>)\<close>

text \<open>
  What a connection emits (\<open>log\<close>, \<open>finish\<close>, \<open>destroy\<close>), the request it issues,
  and what the synchronous part of \<open>start\<close> ends with: the promise resolved with a
  value and no request made, or the \<open>GET\<close> request issued.
\<close>

datatype conn_event = Log string | Finish bool | Destroy

record Request =
  r_method :: string
  r_url :: string
  r_headers :: "(string \<times> string) list"

datatype start_result = Resolved bool | Requested Request

definition Connection_log :: "Connection \<Rightarrow> string \<Rightarrow> conn_event" where
  "Connection_log connection message =
     Log (''[Connection - '' @ show_nat (c_index connection) @ ''] '' @ message)"

text \<open>
  \<open>fs.existsSync(file) && fs.statSync(file) ? fs.statSync(file).size : 0\<close>
\<close>

definition partSize_of :: "fs \<Rightarrow> string \<Rightarrow> nat" where
  "partSize_of fsys file = (case fs_stat fsys file of Some st \<Rightarrow> st_size st | None \<Rightarrow> 0)"

text \<open>
  \<open>start\<close>, lines 153 to 203: from the call to the \<open>GET\<close> request. The result is the
  connection after it, the events it emitted in their order, and how it ended.
\<close>

definition Connection_start ::
  "host \<Rightarrow> fs \<Rightarrow> Connection \<Rightarrow> Connection \<times> conn_event list \<times> start_result" where
  "Connection_start h fsys connection =
     (let log1 = Connection_log connection
            (''Starting download with a limit speed of: '' @ toHuman h (c_speedLimit connection));
          partSize = partSize_of fsys (c_file connection)
      in if js_ge (js_add (fst (c_range connection)) (js_nat partSize)) (snd (c_range connection))
         then (connection\<lparr>c_finished := True\<rparr>,
               [log1, Connection_log connection ''Part is already downloaded'', Finish True],
               Resolved True)
         else
           (connection\<lparr>c_partSize := partSize,
                        c_throttle := Some (new_Throttle (c_speedLimit connection))\<rparr>,
            log1 # (if 0 < partSize
                    then [Connection_log connection
                            ''Part already downloaded, but not complete, resuming...'']
                    else []),
            Requested
              \<lparr>r_method = ''GET'', r_url = c_url connection,
               r_headers =
                 [(''Range'',
                   ''bytes='' @ js_to_string h (js_add (fst (c_range connection)) (js_nat partSize))
                     @ ''-'' @ js_to_string h (snd (c_range connection))),
                  (''User-Agent'',
                   ''Mozilla/5.0 (Windows NT 10.0; Win64; x64) AppleWebKit/53'')]\<rparr>))"

text \<open>The \<open>Range\<close> header of the request \<open>start\<close> issued, if it issued one.\<close>

definition range_header :: "start_result \<Rightarrow> string option" where
  "range_header r =
     (case r of Resolved b \<Rightarrow> None | Requested req \<Rightarrow> map_of (r_headers req) ''Range'')"

text \<open>
  \<open>onDownloadProgress\<close> (lines 204 to 218): \<open>rate\<close> and \<open>progress\<close> may be absent,
  and \<open>x || 0\<close> is \<open>0\<close> for an absent value, for \<open>0\<close> and for \<open>NaN\<close>.
\<close>

record ProgressEvent =
  pe_rate :: "jsnum option"
  pe_progress :: "jsnum option"
  pe_loaded :: jsnum

definition or_zero :: "jsnum option \<Rightarrow> jsnum" where
  "or_zero v = (case v of None \<Rightarrow> js_int 0 | Some x \<Rightarrow> if js_isNaN x then js_int 0 else x)"

definition Connection_onDownloadProgress ::
  "host \<Rightarrow> ProgressEvent \<Rightarrow> Connection \<Rightarrow> Connection \<times> conn_event list" where
  "Connection_onDownloadProgress h progressEvent connection =
     (let c1 = connection\<lparr>c_speed := or_zero (pe_rate progressEvent),
                 c_progress := js_mul (or_zero (pe_progress progressEvent)) (js_int 100),
                 c_totalDownloaded :=
                   js_add (pe_loaded progressEvent) (js_nat (c_partSize connection))\<rparr>
      in (c1, if \<not> c_stopped c1
              then [Connection_log c1 (''Downloading '' @ toFixed2 h (c_progress c1)
                      @ ''% with a speed of '' @ toHuman h (c_speed c1))]
              else []))"

text \<open>The end of the pipeline (lines 269 to 272).\<close>

definition Connection_finished :: "Connection \<Rightarrow> Connection \<times> conn_event list" where
  "Connection_finished connection =
     (connection\<lparr>c_finished := True\<rparr>,
      [Connection_log connection ''Download finished'', Finish True])"

section \<open>Events of a download\<close>

text \<open>
  A connection's events reach the \<open>File\<close> through the two listeners \<open>File.start\<close>
  registers on it (lines 372 to 381): \<open>log\<close> writes the message to the log, and
  \<open>destroy\<close> logs and removes the connection from \<open>connections\<close>. Nothing in the
  program listens to a connection's \<open>finish\<close>.
\<close>

definition File_conn_event :: "nat \<Rightarrow> conn_event \<Rightarrow> File \<Rightarrow> File" where
  "File_conn_event i ev f =
     (case ev of
        Log msg \<Rightarrow> File_log msg f
      | Finish b \<Rightarrow> f
      | Destroy \<Rightarrow>
          (File_log (''Connection '' @ show_nat (c_index (f_heap f ! i)) @ '' destroyed'') f)
            \<lparr>f_connections := filter (\<lambda>c. c \<noteq> i) (f_connections f)\<rparr>)"

definition File_conn_events :: "nat \<Rightarrow> conn_event list \<Rightarrow> File \<Rightarrow> File" where
  "File_conn_events i evs f = fold (File_conn_event i) evs f"

definition set_conn :: "nat \<Rightarrow> Connection \<Rightarrow> File \<Rightarrow> File" where
  "set_conn i c f = f\<lparr>f_heap := (f_heap f)[i := c]\<rparr>"

text \<open>
  The events the \<open>File\<close> emits, and the two listeners a connection registers on it once
  its request is answered (lines 236 to 264): on \<open>speed\<close> it takes the new rate unless
  it is finished, on \<open>stop\<close> it stops unless it is stopped or finished.
\<close>

datatype file_event =
  EvSpeed jsnum | EvStop | EvStart | EvFinish | EvProgress string jsnum jsnum

fun event_name :: "file_event \<Rightarrow> string" where
  "event_name (EvSpeed v) = ''speed''"
| "event_name EvStop = ''stop''"
| "event_name EvStart = ''start''"
| "event_name EvFinish = ''finish''"
| "event_name (EvProgress s p e) = ''progress''"

definition Throttle_set :: "jsnum \<Rightarrow> Throttle \<Rightarrow> Throttle" where
  "Throttle_set speed throttle =
     throttle\<lparr>th_chunksize := speed,
              th_bucket := (case th_bucket throttle of None \<Rightarrow> None
                            | Some b \<Rightarrow> Some (speed, speed))\<rparr>"

definition on_speed :: "host \<Rightarrow> nat \<Rightarrow> jsnum \<Rightarrow> File \<Rightarrow> File" where
  "on_speed h i speed f =
     (let connection = f_heap f ! i
      in if \<not> c_finished connection
         then set_conn i
                (connection\<lparr>c_speedLimit := speed,
                   c_throttle := map_option (Throttle_set speed) (c_throttle connection)\<rparr>)
                (File_conn_event i
                   (Connection_log connection (''Changing speed to: '' @ toHuman h speed)) f)
         else f)"

definition on_stop :: "nat \<Rightarrow> File \<Rightarrow> File" where
  "on_stop i f =
     (let connection = f_heap f ! i
      in if \<not> c_stopped connection \<and> \<not> c_finished connection
         then set_conn i (connection\<lparr>c_stopped := True\<rparr>)
                (File_conn_events i
                   [Connection_log connection
                      (''Stopping Connection '' @ show_nat (c_index connection)),
                    Destroy] f)
         else f)"

fun run_listener :: "host \<Rightarrow> file_listener \<Rightarrow> file_event \<Rightarrow> File \<Rightarrow> File" where
  "run_listener h (ConnSpeed i) (EvSpeed speed) f = on_speed h i speed f"
| "run_listener h (ConnStop i) EvStop f = on_stop i f"
| "run_listener h l ev f = f"

text \<open>
  \<open>emit\<close>: the listeners registered under the event's name run in the order of their
  registration.
\<close>

definition File_emit :: "host \<Rightarrow> file_event \<Rightarrow> File \<Rightarrow> File" where
  "File_emit h ev f =
     fold (\<lambda>(name, l) g. if name = event_name ev then run_listener h l ev g else g)
       (f_listeners f) f"

text \<open>
  The answer to a connection's request has come (line 233 on): it registers its two
  listeners.
\<close>

definition Connection_answered :: "nat \<Rightarrow> File \<Rightarrow> File" where
  "Connection_answered i f =
     f\<lparr>f_listeners := f_listeners f @ [(''speed'', ConnSpeed i), (''stop'', ConnStop i)]\<rparr>"

section \<open>Speed\<close>

text \<open>\<open>File.setSpeed\<close> (lines 239 to 253) and \<open>Prometeo.setSpeed\<close> (lines 403 to 419).\<close>

definition File_setSpeed :: "host \<Rightarrow> jsnum \<Rightarrow> File \<Rightarrow> exn + File" where
  "File_setSpeed h speed this =
     (if js_isNaN speed
      then Inl (PrometeoError InvalidArgumentError ''The speed must be a positive number.'')
      else Inr (File_emit h
                  (EvSpeed (js_div speed (js_nat (length (f_connections this)))))
                  (this\<lparr>f_speed := speed\<rparr>)))"

fun forEach_setSpeed :: "host \<Rightarrow> jsnum \<Rightarrow> File list \<Rightarrow> exn + File list" where
  "forEach_setSpeed h speed [] = Inr []"
| "forEach_setSpeed h speed (d # ds) =
     (case File_setSpeed h speed d of
        Inl e \<Rightarrow> Inl e
      | Inr d' \<Rightarrow>
          (case forEach_setSpeed h speed ds of
             Inl e \<Rightarrow> Inl e
           | Inr ds' \<Rightarrow> Inr (d' # ds')))"

definition Prometeo_setSpeed :: "host \<Rightarrow> jsnum \<Rightarrow> Prometeo \<Rightarrow> exn + Prometeo" where
  "Prometeo_setSpeed h speed this =
     (if js_le speed (js_int 0)
      then Inl (PrometeoError InvalidArgumentError ''The speed limit must be a positive number.'')
      else
        (case forEach_setSpeed h (js_mul speed (js_int 125000)) (m_downloads this) of
           Inl e \<Rightarrow> Inl e
         | Inr ds \<Rightarrow>
             Inr (this\<lparr>m_speedLimit := js_mul speed (js_int 125000), m_downloads := ds\<rparr>)))"

section \<open>Stopping\<close>

text \<open>
  \<open>File.stop\<close> (lines 268 to 288): it marks the download stopped, registers a listener
  for the log writer's \<open>"writed"\<close>, emits \<open>stop\<close> and sets a timer of 1000 ms. The
  result is the download after the call and the index of the promise it returned.
\<close>

definition File_stop :: "host \<Rightarrow> File \<Rightarrow> File \<times> nat" where
  "File_stop h this =
     (let k = length (f_stopPromises this);
          f1 = this\<lparr>f_stoped := True, f_stopPromises := f_stopPromises this @ [False]\<rparr>;
          f2 = f1\<lparr>f_logStream := Writer_on ''writed'' (StopDrained k) (f_logStream f1)\<rparr>
      in (File_emit h EvStop f2, k))"

definition resolve_stop :: "nat \<Rightarrow> File \<Rightarrow> File" where
  "resolve_stop k f = f\<lparr>f_stopPromises := (f_stopPromises f)[k := True]\<rparr>"

text \<open>
  The closure both the listener and the timer run:
  \<open>if (file.logStream.pendingWrites === 0) resolve(true)\<close>.
\<close>

definition resolve_if_drained :: "nat \<Rightarrow> File \<Rightarrow> File" where
  "resolve_if_drained k f =
     (if w_pendingWrites (f_logStream f) = 0 then resolve_stop k f else f)"

definition stop_timer :: "nat \<Rightarrow> File \<Rightarrow> File" where
  "stop_timer k f = resolve_if_drained k f"

text \<open>
  The listeners of the log writer, and the callback of a write (\<open>Writer.write\<close>, lines
  23 to 29): one pending write less, then the writer emits \<open>"write"\<close>.
\<close>

fun run_writer_listener :: "writer_listener \<Rightarrow> File \<Rightarrow> File" where
  "run_writer_listener (StopDrained k) f = resolve_if_drained k f"
| "run_writer_listener IntervalFinish f = f\<lparr>f_inter := False\<rparr>"

definition Writer_emit :: "string \<Rightarrow> File \<Rightarrow> File" where
  "Writer_emit name f =
     fold (\<lambda>(n, l) g. if n = name then run_writer_listener l g else g)
       (w_listeners (f_logStream f)) f"

definition write_callback :: "File \<Rightarrow> File" where
  "write_callback f =
     Writer_emit ''write''
       (f\<lparr>f_logStream := (f_logStream f)\<lparr>w_pendingWrites := w_pendingWrites (f_logStream f) - 1\<rparr>\<rparr>)"

text \<open>What happens to a stopped download afterwards: write callbacks and the timer.\<close>

datatype stop_step = WriteCallback | Timer1000

fun after_stop :: "nat \<Rightarrow> stop_step list \<Rightarrow> File \<Rightarrow> File" where
  "after_stop k [] f = f"
| "after_stop k (WriteCallback # steps) f = after_stop k steps (write_callback f)"
| "after_stop k (Timer1000 # steps) f = after_stop k steps (stop_timer k f)"

section \<open>Progress\<close>

text \<open>\<open>calculateTime\<close> (lines 400 to 411).\<close>

definition calculateTime :: "jsnum \<Rightarrow> jsnum \<Rightarrow> jsnum \<Rightarrow> jsnum" where
  "calculateTime bytes size' downloaded =
     (let sizeLeft = js_sub size' downloaded;
          estimatedTime = js_div sizeLeft bytes;
          ms = js_mul estimatedTime (js_int 1000)
      in ms)"

definition the_connections :: "File \<Rightarrow> Connection list" where
  "the_connections f = map (\<lambda>i. f_heap f ! i) (f_connections f)"

text \<open>
  The sums of the interval: the speeds of the connections that are not finished,
  rounded, and the bytes downloaded by all connections.
\<close>

definition unfinished :: "File \<Rightarrow> Connection list" where
  "unfinished f = filter (\<lambda>c. \<not> c_finished c) (the_connections f)"

definition aggregate_speed :: "File \<Rightarrow> jsnum" where
  "aggregate_speed f = js_round (foldl (\<lambda>a b. js_add a (c_speed b)) (js_int 0) (unfinished f))"

definition total_downloaded :: "File \<Rightarrow> jsnum" where
  "total_downloaded f =
     foldl (\<lambda>a b. js_add a (c_totalDownloaded b)) (js_int 0) (the_connections f)"

text \<open>
  One run of the interval of \<open>start\<close> (lines 311 to 346), every 500 ms: the download
  after it and the \<open>progress\<close> event it emitted, if any.
\<close>

definition File_tick :: "host \<Rightarrow> File \<Rightarrow> File \<times> file_event option" where
  "File_tick h Download =
     (let connections = unfinished Download
      in if length (f_connections Download) = 0
         then (if \<not> f_waitingLog Download
               then (Download\<lparr>f_logStream :=
                                 Writer_on ''finish'' IntervalFinish (f_logStream Download),
                               f_waitingLog := True\<rparr>, None)
               else (Download, None))
         else if length connections \<noteq> 0
         then
           let progress = js_round
                 (js_div (foldl (\<lambda>a b. js_add a (c_progress b)) (js_int 0) connections)
                         (js_nat (length connections)));
               totalDownloaded = total_downloaded Download;
               speed = aggregate_speed Download
           in (Download,
               Some (EvProgress (toHuman h speed)
                       (if js_gt progress (js_int 100) then js_int 100 else progress)
                       (js_round (calculateTime speed (f_size Download) totalDownloaded))))
         else (Download, None))"

text \<open>The estimate a \<open>progress\<close> event carries.\<close>

fun eta_of :: "file_event option \<Rightarrow> jsnum option" where
  "eta_of (Some (EvProgress s p e)) = Some e"
| "eta_of _ = None"

section \<open>Starting, observing, composing and cleaning up\<close>

text \<open>\<open>new Connection(Download, {speed, url, part, contentType})\<close> (lines 60 to 74).\<close>

definition new_Connection :: "File \<Rightarrow> nat \<times> (string \<times> Range) \<Rightarrow> Connection" where
  "new_Connection Download part =
     \<lparr>c_file = fst (snd part), c_url = f_url Download,
      c_speedLimit = js_div (f_speed Download) (js_nat (length (f_parts Download))),
      c_range = snd (snd part), c_speed = js_int 0, c_index = fst part,
      c_progress = js_int 0, c_finished = False, c_stopped = False,
      c_totalDownloaded = js_int 0, c_partSize = 0, c_throttle = None\<rparr>"

text \<open>
  The body of the loop of \<open>start\<close> (lines 364 to 385): the connection is created,
  pushed and started; the requests issued are collected.
\<close>

definition spawn ::
  "host \<Rightarrow> fs \<Rightarrow> nat \<times> (string \<times> Range) \<Rightarrow> File \<times> start_result list
     \<Rightarrow> File \<times> start_result list" where
  "spawn h fsys part st =
     (let f = fst st;
          i = length (f_heap f);
          f1 = f\<lparr>f_heap := f_heap f @ [new_Connection f part],
                 f_connections := f_connections f @ [i]\<rparr>;
          started = Connection_start h fsys (new_Connection f part)
      in (File_conn_events i (fst (snd started)) (set_conn i (fst started) f1),
          snd st @ [snd (snd started)]))"

text \<open>
  \<open>File.start\<close> (lines 294 to 391) up to the wait for the observer. An exception thrown
  here leaves the promise of \<open>start\<close> pending; the model returns it beside the state.
\<close>

datatype start_status = Spawned "start_result list" | Threw exn

definition File_start :: "host \<Rightarrow> fs \<Rightarrow> File \<Rightarrow> File \<times> start_status" where
  "File_start h fsys this =
     (let f1 = File_log (''Starting file parts download with a speed limit of ''
                           @ toHuman h (js_round (f_speed this))) this;
          f2 = f1\<lparr>f_inter := True\<rparr>
      in case fs_stat fsys (f_path this) of
           None \<Rightarrow> (f2, Threw (NativeError ''ENOENT''))
         | Some st \<Rightarrow>
             if \<not> st_isDirectory st then (f2, Threw (NativeError ''EEXIST''))
             else if \<not> URLUtils_validate h (f_url this)
             then (File_log ''Stopping Download'' (File_log (''Invalid URL: '' @ f_url this) f2),
                   Threw (PrometeoError BadURLError ''The URL is invalid''))
             else
               (let r = fold (spawn h fsys) (f_parts this) (f2, [])
                in (fst r, Spawned (snd r))))"

text \<open>
  \<open>composeFile\<close> (lines 504 to 549). The destination is opened for appending, which
  creates it; \<open>failure\<close> is the error of that stream, if one occurs. The loop takes the
  entries in the order of their indices. For the first one it logs the path of the part
  and then calls \<open>fs.createReadStream(file[1][0])\<close>, where \<open>file\<close> has become the
  value \<open>[path, [start, end]]\<close> of the entry: the argument is the first byte of the
  range, a number, and \<open>createReadStream\<close> throws a \<open>TypeError\<close>. The exception ends
  the \<open>async\<close> executor, nothing is appended or removed, and the promise is settled only
  by the \<open>error\<close> event of the destination stream, if there is one. The result is what
  the promise settles with, \<open>None\<close> when it never does.
\<close>

definition appendFile :: "fs \<Rightarrow> string \<Rightarrow> byte list \<Rightarrow> fs" where
  "appendFile fsys p bytes =
     writeFileSync fsys p ((if existsSync fsys p then fs_data fsys p else []) @ bytes)"

definition composeFile ::
  "string option \<Rightarrow> Part \<Rightarrow> string \<Rightarrow> File \<times> fs \<Rightarrow> (exn + string) option \<times> File \<times> fs" where
  "composeFile failure parts path st =
     (case sort_key fst parts of
        [] \<Rightarrow>
          (case failure of
             Some msg \<Rightarrow> (Some (Inl (NativeError msg)), st)
           | None \<Rightarrow> (Some (Inr path), fst st, appendFile (snd st) path []))
      | part # rest \<Rightarrow>
          (let f1 = File_log (''Joining part '' @ fst (snd part)) (fst st)
           in case failure of
                Some msg \<Rightarrow> (Some (Inl (NativeError msg)), f1, snd st)
              | None \<Rightarrow> (None, f1, appendFile (snd st) path [])))"

text \<open>
  \<open>cleanup\<close> (lines 472 to 496). \<open>removed\<close> tells whether \<open>rmSync\<close> of the work
  directory succeeded; then every path that starts with it is gone.
\<close>

definition rmSync_recursive :: "fs \<Rightarrow> string \<Rightarrow> fs" where
  "rmSync_recursive fsys p =
     fsys\<lparr>fs_stat := (\<lambda>q. if take (length p) q = p then None else fs_stat fsys q)\<rparr>"

definition cleanup :: "host \<Rightarrow> bool \<Rightarrow> File \<times> fs \<Rightarrow> File \<times> fs" where
  "cleanup h removed st =
     (let this = (fst st)\<lparr>f_logStream := Writer_stop (f_logStream (fst st))\<rparr>;
          fsys = snd st
      in if removed then (this, rmSync_recursive fsys (f_path this))
         else if existsSync fsys (f_path this)
         then
           (let config = (f_allConfig this)\<lparr>o_finished := True\<rparr>
            in (this\<lparr>f_allConfig := config\<rparr>,
                writeFileSync fsys (resolve h (f_path this) ''./prometeo.config'')
                  (utf8_encode (encode_manifest h config))))
         else (this, fsys))"

text \<open>
  One run of \<open>observer\<close> (lines 418 to 466). \<open>file instanceof Error\<close> tests for the
  program's own error class, so an error of the platform goes the way of a composed
  file. The run resolves, rejects, waits for ever for \<open>composeFile\<close>, or is to be run
  again after 100 ms with the count it saw.
\<close>

datatype observer_result = Res "exn + string" | Rej exn | Waiting | Again nat

definition observer ::
  "host \<Rightarrow> string option \<Rightarrow> bool \<Rightarrow> nat option \<Rightarrow> File \<times> fs
     \<Rightarrow> observer_result \<times> File \<times> fs" where
  "observer h failure removed prevValue st =
     (let Download = fst st;
          finished = unfinished Download
      in if length finished = 0 \<and> \<not> f_stoped Download
         then
           (let f1 = File_log ''Joining parts to form the original file''
                       (File_log ''File download finished'' (Download\<lparr>f_inter := False\<rparr>));
                composed = composeFile failure (f_parts f1) (f_destination f1) (f1, snd st)
            in case fst composed of
                 None \<Rightarrow> (Waiting, snd composed)
               | Some (Inl (PrometeoError n msg)) \<Rightarrow>
                   (Rej (PrometeoError n msg),
                    File_log (''Error while joining parts: '' @ msg) (fst (snd composed)),
                    snd (snd composed))
               | Some file \<Rightarrow>
                   (Res file,
                    cleanup h removed
                      (File_log ''Cleaning up''
                         (File_log ''File joined successfully'' (fst (snd composed))),
                       snd (snd composed))))
         else
           (Again (length finished),
            if prevValue \<noteq> Some (length finished)
            then File_emit h (EvSpeed (js_div (f_speed Download) (js_nat (length finished))))
                   Download
            else Download,
            snd st))"

text \<open>
  The two ways a connection fails: its request (lines 219 to 231), where it always emits
  \<open>destroy\<close>, and its pipeline (lines 273 to 291), where it does so unless the message
  is one of a cancellation.
\<close>

definition cancellation :: "string \<Rightarrow> bool" where
  "cancellation msg = (msg \<in> set [''closed'', ''Premature close'', ''canceled''])"

definition error_logs :: "host \<Rightarrow> Connection \<Rightarrow> string \<Rightarrow> conn_event list" where
  "error_logs h connection msg =
     [Connection_log connection
        (''Stopping Connection '' @ show_nat (c_index connection) @ '' ['' @ msg @ '']''),
      Connection_log connection (''Connection '' @ show_nat (c_index connection) @ '' Error:''),
      Connection_log connection (inspect h msg)]"

definition request_failed :: "host \<Rightarrow> Connection \<Rightarrow> string \<Rightarrow> conn_event list" where
  "request_failed h connection msg =
     (if \<not> cancellation msg then error_logs h connection msg else []) @ [Destroy]"

definition pipeline_failed :: "host \<Rightarrow> Connection \<Rightarrow> string \<Rightarrow> conn_event list" where
  "pipeline_failed h connection msg =
     (if \<not> cancellation msg then error_logs h connection msg @ [Destroy] else [])"

section \<open>The life of a download\<close>

text \<open>
  Everything that can happen to a \<open>File\<close> once it is constructed: the calls of its
  methods and the callbacks of its timers, of its log writer and of its connections
  (each named by its index in \<open>f_heap\<close>). A call that throws leaves the state as it
  was at the throw.
\<close>

datatype file_op =
    OpSetSpeed jsnum
  | OpStop
  | OpStart fs
  | OpObserver fs "string option" bool "nat option"
  | OpComposeFile fs "string option"
  | OpCleanup fs bool
  | OpTick
  | OpStopTimer nat
  | OpWriteCallback
  | OpAnswered nat
  | OpProgress nat ProgressEvent
  | OpFinished nat
  | OpRequestFailed nat string
  | OpPipelineFailed nat string

definition conn_callback :: "nat \<Rightarrow> (Connection \<Rightarrow> Connection \<times> conn_event list) \<Rightarrow> File \<Rightarrow> File" where
  "conn_callback i cb f =
     (let r = cb (f_heap f ! i) in File_conn_events i (snd r) (set_conn i (fst r) f))"

fun apply_op :: "host \<Rightarrow> file_op \<Rightarrow> File \<Rightarrow> File" where
  "apply_op h (OpSetSpeed speed) f = (case File_setSpeed h speed f of Inl e \<Rightarrow> f | Inr g \<Rightarrow> g)"
| "apply_op h OpStop f = fst (File_stop h f)"
| "apply_op h (OpStart fsys) f = fst (File_start h fsys f)"
| "apply_op h (OpObserver fsys failure removed prevValue) f =
     fst (snd (observer h failure removed prevValue (f, fsys)))"
| "apply_op h (OpComposeFile fsys failure) f =
     fst (snd (composeFile failure (f_parts f) (f_destination f) (f, fsys)))"
| "apply_op h (OpCleanup fsys removed) f = fst (cleanup h removed (f, fsys))"
| "apply_op h OpTick f = fst (File_tick h f)"
| "apply_op h (OpStopTimer k) f = stop_timer k f"
| "apply_op h OpWriteCallback f = write_callback f"
| "apply_op h (OpAnswered i) f = Connection_answered i f"
| "apply_op h (OpProgress i pe) f = conn_callback i (Connection_onDownloadProgress h pe) f"
| "apply_op h (OpFinished i) f = conn_callback i Connection_finished f"
| "apply_op h (OpRequestFailed i msg) f =
     File_conn_events i (request_failed h (f_heap f ! i) msg) f"
| "apply_op h (OpPipelineFailed i msg) f =
     File_conn_events i (pipeline_failed h (f_heap f ! i) msg) f"

definition run_ops :: "host \<Rightarrow> file_op list \<Rightarrow> File \<Rightarrow> File" where
  "run_ops h ops f = fold (apply_op h) ops f"

section \<open>A sample platform and sample data\<close>

text \<open>
  For the examples: a platform whose functions are simple instances of the real ones.
  \<open>Number\<close> reads decimal digits, \<open>resolve\<close> joins with a slash, \<open>extname\<close> is
  the last dotted suffix, and \<open>JSON.stringify\<close> prints a plan whose numbers are
  integers and whose strings need no escape, in the order of the keys \<open>download\<close>
  builds; its \<open>JSON.parse\<close> reads the text of the sample plan only.
\<close>

definition sample_number :: "string \<Rightarrow> jsnum" where
  "sample_number s =
     (if list_all (\<lambda>c. 48 \<le> (of_char c :: nat) \<and> (of_char c :: nat) \<le> 57) s
      then js_nat (foldl (\<lambda>a c. 10 * a + (of_char c - 48)) 0 s)
      else NaN)"

definition sample_extname :: "string \<Rightarrow> string" where
  "sample_extname p =
     (if CHR ''.'' \<in> set p then CHR ''.'' # rev (takeWhile (\<lambda>c. c \<noteq> CHR ''.'') (rev p)) else [])"

definition sample_resolve :: "string \<Rightarrow> string \<Rightarrow> string" where
  "sample_resolve a b = a @ ''/'' @ (if take 2 b = ''./'' then drop 2 b else b)"

definition json_quote :: "string \<Rightarrow> string" where
  "json_quote s = [CHR 0x22] @ s @ [CHR 0x22]"

definition json_num :: "jsnum \<Rightarrow> string" where
  "json_num x = (case x of Fin q \<Rightarrow> show_int \<lfloor>q\<rfloor> | _ \<Rightarrow> ''null'')"

definition json_part :: "nat \<times> (string \<times> Range) \<Rightarrow> string" where
  "json_part p =
     json_quote (show_nat (fst p)) @ '':['' @ json_quote (fst (snd p)) @ '',[''
       @ json_num (fst (snd (snd p))) @ '','' @ json_num (snd (snd (snd p))) @ '']]''"

fun json_parts :: "Part \<Rightarrow> string" where
  "json_parts [] = []"
| "json_parts [p] = json_part p"
| "json_parts (p # ps) = json_part p @ '','' @ json_parts ps"

definition sample_stringify :: "FileOptions \<Rightarrow> string" where
  "sample_stringify p =
     ''{'' @ json_quote ''url'' @ '':'' @ json_quote (o_url p)
     @ '','' @ json_quote ''path'' @ '':'' @ json_quote (o_path p)
     @ '','' @ json_quote ''name'' @ '':'' @ json_quote (o_name p)
     @ '','' @ json_quote ''size'' @ '':'' @ json_num (o_size p)
     @ '','' @ json_quote ''parts'' @ '':{'' @ json_parts (o_parts p) @ ''}''
     @ '','' @ json_quote ''destination'' @ '':'' @ json_quote (o_destination p)
     @ '','' @ json_quote ''speed'' @ '':'' @ json_num (o_speed p)
     @ '','' @ json_quote ''contentType'' @ '':'' @ json_quote (o_contentType p)
     @ '','' @ json_quote ''finished'' @ '':'' @ (if o_finished p then ''true'' else ''false'')
     @ (case o_resumed p of None \<Rightarrow> []
        | Some b \<Rightarrow> '','' @ json_quote ''resumed'' @ '':'' @ (if b then ''true'' else ''false''))
     @ ''}''"

text \<open>The plan of 10 bytes over 2 connections at 10 Mbps.\<close>

definition sample_plan :: FileOptions where
  "sample_plan =
     \<lparr>o_url = ''http://origin/f.bin'', o_path = ''/tmp/f'', o_name = ''f.bin'',
      o_size = js_int 10,
      o_parts = build_parts sample_resolve ''/tmp/f'' ''f.bin'' (js_int 10) 2,
      o_resumed = None, o_speed = js_int 1250000, o_destination = ''/out/f.bin'',
      o_contentType = ''application/octet-stream'', o_finished = False\<rparr>"

definition sample_parse :: "string \<Rightarrow> FileOptions option" where
  "sample_parse s = (if s = sample_stringify sample_plan then Some sample_plan else None)"

definition sample_host :: host where
  "sample_host =
     \<lparr>url_parses = (\<lambda>u. take 7 u = ''http://'' \<or> take 8 u = ''https://''),
      string_to_number = sample_number,
      show_other_number = (\<lambda>q. ''?''),
      resolve = sample_resolve,
      extname = sample_extname,
      mkdirp_ok = (\<lambda>fsys p. True),
      randomHex = ''00112233445566778899aabbccddeeff'',
      json_stringify = sample_stringify,
      json_parse = sample_parse,
      toHuman = (\<lambda>x. ''? B/s''),
      toFixed2 = (\<lambda>x. ''?''),
      inspect = (\<lambda>msg. msg),
      getFileType = (\<lambda>u r. sample_extname u),
      getFileName = (\<lambda>u r. rev (takeWhile (\<lambda>c. c \<noteq> CHR ''/'') (rev u)))\<rparr>"

text \<open>
  A file system given by its directories and by its regular files with their sizes, a
  response given by its headers, a download with given connections, a manager with the
  default options, and a connection for a range of integers.
\<close>

definition sample_fs :: "string list \<Rightarrow> (string \<times> nat) list \<Rightarrow> fs" where
  "sample_fs dirs files =
     \<lparr>fs_stat = (\<lambda>p. if p \<in> set dirs
                      then Some \<lparr>st_isFile = False, st_isDirectory = True, st_size = 0\<rparr>
                      else map_option
                             (\<lambda>n. \<lparr>st_isFile = True, st_isDirectory = False, st_size = n\<rparr>)
                             (map_of files p)),
      fs_data = (\<lambda>p. [])\<rparr>"

definition sample_response :: "(string \<times> string) list \<Rightarrow> Response" where
  "sample_response hs = \<lparr>ok = True, headers = map_of hs\<rparr>"

definition with_connections :: "Connection list \<Rightarrow> File \<Rightarrow> File" where
  "with_connections cs f = f\<lparr>f_heap := cs, f_connections := [0..<length cs]\<rparr>"

definition sample_manager :: Prometeo where
  "sample_manager =
     \<lparr>m_connections = 4, m_tempDir = ''/tmp'', m_userAgent = ''Mozilla/5.0'',
      m_speedLimit = js_int 1250000, m_downloads = []\<rparr>"

definition sample_connection :: "nat \<Rightarrow> string \<Rightarrow> int \<Rightarrow> int \<Rightarrow> Connection" where
  "sample_connection i file a b =
     \<lparr>c_file = file, c_url = ''http://origin/f.bin'', c_speedLimit = js_int 625000,
      c_range = (js_int a, js_int b), c_speed = js_int 0, c_index = i,
      c_progress = js_int 0, c_finished = False, c_stopped = False,
      c_totalDownloaded = js_int 0, c_partSize = 0, c_throttle = None\<rparr>"

text \<open>
  The sample download after \<open>start\<close> (no part file is there yet), the answers to both
  requests and the end of the first connection's pipeline.
\<close>

definition sample_running :: File where
  "sample_running =
     run_ops sample_host
       [OpStart (sample_fs [''/tmp/f''] []), OpAnswered 0, OpAnswered 1, OpFinished 0]
       (init_File sample_plan)"

section \<open>Properties\<close>

subsection \<open>Rounding to a double\<close>

lemma bit_length_bounds: "0 < n \<Longrightarrow> 2 ^ (bit_length n - 1) \<le> n \<and> n < 2 ^ bit_length n"
proof (induction n rule: bit_length.induct)
  case (1 n)
  show ?case
  proof (cases "n div 2 = 0")
    case True
    with 1(2) have "n = 1" by simp
    then show ?thesis
      by (simp add: bit_length.simps [of "Suc 0"] bit_length.simps [of 0])
  next
    case False
    then have pos: "0 < n div 2" by simp
    from 1(1) [OF _ pos] 1(2)
    have ih: "2 ^ (bit_length (n div 2) - 1) \<le> n div 2" "n div 2 < 2 ^ bit_length (n div 2)"
      by simp_all
    have b: "bit_length n = Suc (bit_length (n div 2))"
      using 1(2) by (simp add: bit_length.simps [of n])
    have bp: "0 < bit_length (n div 2)"
      using pos by (simp add: bit_length.simps [of "n div 2"])
    then have "(2::nat) ^ bit_length (n div 2) = 2 * 2 ^ (bit_length (n div 2) - 1)"
      by (cases "bit_length (n div 2)") simp_all
    then have "(2::nat) ^ bit_length (n div 2) \<le> 2 * (n div 2)"
      using ih(1) by simp
    then have lo: "(2::nat) ^ (bit_length n - 1) \<le> n"
      unfolding b by simp
    have "n < 2 * (n div 2 + 1)" by simp
    also have "\<dots> \<le> 2 * 2 ^ bit_length (n div 2)"
      using ih(2) by simp
    finally have hi: "n < 2 ^ bit_length n"
      unfolding b by simp
    show ?thesis using lo hi by simp
  qed
qed

lemma bit_length_pos: "0 < n \<Longrightarrow> 0 < bit_length n"
  by (simp add: bit_length.simps [of n])

lemma exponent_of_lower:
  assumes "0 < q"
  shows "2 powi exponent_of q \<le> q"
proof (cases "1 \<le> q")
  case True
  define n where "n = nat \<lfloor>q\<rfloor>"
  have f: "1 \<le> \<lfloor>q\<rfloor>"
    using True by (simp add: le_floor_iff)
  then have "(of_nat n :: rat) = of_int \<lfloor>q\<rfloor>"
    unfolding n_def by (metis of_int_of_nat_eq nat_0_le order_trans zero_le_one)
  then have n: "0 < n" "of_nat n \<le> q"
    using f floor_correct [of q] by (simp_all add: n_def)
  have "exponent_of q = int (bit_length n - 1)"
    using True bit_length_pos [OF n(1)] by (simp add: exponent_of_def n_def)
  then have "2 powi exponent_of q = (2::rat) ^ (bit_length n - 1)"
    by simp
  also have "\<dots> = of_nat (2 ^ (bit_length n - 1))"
    by simp
  also have "\<dots> \<le> of_nat n"
    using bit_length_bounds [OF n(1)] by (simp only: of_nat_le_iff)
  finally show ?thesis
    using n(2) by simp
next
  case False
  define n where "n = nat (\<lceil>1 / q\<rceil> - 1)"
  have "1 < 1 / q"
    using False assms by (simp add: field_simps)
  then have c: "2 \<le> \<lceil>1 / q\<rceil>"
    by (simp add: le_ceiling_iff)
  then have n: "0 < n" "int n = \<lceil>1 / q\<rceil> - 1"
    unfolding n_def by linarith+
  have "1 / q \<le> of_int \<lceil>1 / q\<rceil>"
    by simp
  also have "\<dots> = of_nat (n + 1)"
    using n(2) by (metis add.commute diff_add_cancel of_int_of_nat_eq of_nat_1 of_nat_add)
  also have "\<dots> \<le> of_nat (2 ^ bit_length n)"
    using bit_length_bounds [OF n(1)] by (simp only: of_nat_le_iff) simp
  finally have "1 / q \<le> 2 ^ bit_length n"
    by simp
  then have "1 / 2 ^ bit_length n \<le> q"
    using assms by (simp add: field_simps)
  moreover have "exponent_of q = - int (bit_length n)"
    using False by (simp add: exponent_of_def n_def)
  ultimately show ?thesis
    by (simp add: power_int_minus_divide)
qed

lemma exponent_of_upper:
  assumes "0 < q"
  shows "q < 2 powi (exponent_of q + 1)"
proof (cases "1 \<le> q")
  case True
  define n where "n = nat \<lfloor>q\<rfloor>"
  have f: "1 \<le> \<lfloor>q\<rfloor>"
    using True by (simp add: le_floor_iff)
  then have "(of_nat n :: rat) = of_int \<lfloor>q\<rfloor>"
    unfolding n_def by (metis of_int_of_nat_eq nat_0_le order_trans zero_le_one)
  then have n: "0 < n" "q < of_nat n + 1"
    using f floor_correct [of q] by (simp_all add: n_def)
  have "exponent_of q + 1 = int (bit_length n)"
    using True by (simp add: exponent_of_def n_def)
  then have p: "2 powi (exponent_of q + 1) = (2::rat) ^ bit_length n"
    by simp
  have "of_nat n + 1 = (of_nat (n + 1) :: rat)"
    by simp
  also have "\<dots> \<le> of_nat (2 ^ bit_length n)"
    using bit_length_bounds [OF n(1)] by (simp only: of_nat_le_iff) simp
  finally show ?thesis
    using n(2) p by simp
next
  case False
  define n where "n = nat (\<lceil>1 / q\<rceil> - 1)"
  have "1 < 1 / q"
    using False assms by (simp add: field_simps)
  then have c: "2 \<le> \<lceil>1 / q\<rceil>"
    by (simp add: le_ceiling_iff)
  then have n: "0 < n" "int n = \<lceil>1 / q\<rceil> - 1"
    unfolding n_def by linarith+
  have e: "exponent_of q + 1 = - int (bit_length n - 1)"
    using False bit_length_pos [OF n(1)] by (simp add: exponent_of_def n_def)
  have "(of_nat (2 ^ (bit_length n - 1)) :: rat) \<le> of_nat n"
    using bit_length_bounds [OF n(1)] by (simp only: of_nat_le_iff)
  also have "(of_nat n :: rat) = of_int (\<lceil>1 / q\<rceil> - 1)"
    using n(2) by (metis of_int_of_nat_eq)
  also have "\<dots> < 1 / q"
    using ceiling_correct [of "1 / q"] by simp
  finally have "2 ^ (bit_length n - 1) < 1 / q"
    by simp
  then have "q < 1 / 2 ^ (bit_length n - 1)"
    using assms by (simp add: field_simps)
  then show ?thesis
    unfolding e by (simp add: power_int_minus_divide)
qed


lemma round_half_even_int: "round_half_even (of_int m) = m"
  by (simp add: round_half_even_def)

lemma round_half_even_err: "\<bar>of_int (round_half_even x) - x\<bar> \<le> 1 / 2"
proof -
  have "of_int \<lfloor>x\<rfloor> \<le> x" "x < of_int \<lfloor>x\<rfloor> + 1"
    by linarith+
  then show ?thesis
    unfolding round_half_even_def Let_def by (auto simp: abs_le_iff)
qed

lemma nearest_pos_err:
  assumes "2 powi (- 1022) \<le> q"
  shows "\<bar>nearest_pos q - q\<bar> \<le> q / 2 ^ 53"
proof -
  have q: "0 < q"
    using assms by (rule less_le_trans [rotated]) simp
  define u :: rat where "u = 2 powi (double_exponent q - 52)"
  have u: "0 < u"
    by (simp add: u_def)
  have "2 powi double_exponent q \<le> q"
    using exponent_of_lower [OF q] assms by (simp add: double_exponent_def max_def)
  moreover have "(2::rat) powi double_exponent q = u * 2 ^ 52"
    unfolding u_def by (simp add: power_int_diff)
  ultimately have uq: "u * 2 ^ 52 \<le> q"
    by simp
  have "nearest_pos q - q = (of_int (round_half_even (q / u)) - q / u) * u"
    using u by (simp add: nearest_pos_def u_def [symmetric] field_simps)
  then have "\<bar>nearest_pos q - q\<bar> = \<bar>of_int (round_half_even (q / u)) - q / u\<bar> * u"
    using u by (simp add: abs_mult)
  also have "\<dots> \<le> 1 / 2 * u"
    using round_half_even_err [of "q / u"] u by (intro mult_right_mono) simp_all
  also have "\<dots> = u * 2 ^ 52 / 2 ^ 53"
    by simp
  also have "\<dots> \<le> q / 2 ^ 53"
    using uq by (intro divide_right_mono) simp_all
  finally show ?thesis .
qed

lemma nearest_pos_int:
  assumes "0 < j" "j < 2 ^ 53"
  shows "nearest_pos (of_int j) = of_int j"
proof -
  define q :: rat where "q = of_int j"
  have q: "0 < q" "q < 2 powi 53"
    using assms by (simp_all add: q_def)
  have "2 powi exponent_of q < (2::rat) powi 53"
    using exponent_of_lower [OF q(1)] q(2) by simp
  then have "exponent_of q < 53"
    by (rule power_int_le_imp_less_exp [rotated]) simp_all
  then have e: "double_exponent q \<le> 52"
    by (simp add: double_exponent_def)
  define k where "k = nat (52 - double_exponent q)"
  have "(2::rat) powi (double_exponent q - 52) = 1 / 2 ^ k"
    using e by (simp add: k_def power_int_def power_divide)
  then have u: "(2::rat) powi (double_exponent q - 52) = 1 / of_int (2 ^ k)"
    by simp
  have "q / 2 powi (double_exponent q - 52) = q * 2 ^ k"
    by (simp only: u) simp
  also have "\<dots> = of_int (j * 2 ^ k)"
    by (simp add: q_def)
  finally have "q / 2 powi (double_exponent q - 52) = of_int (j * 2 ^ k)" .
  then have "round_half_even (q / 2 powi (double_exponent q - 52)) = j * 2 ^ k"
    by (simp only: round_half_even_int)
  then have "nearest_pos q = of_int (j * 2 ^ k) * (1 / of_int (2 ^ k))"
    by (simp only: nearest_pos_def [of q] u)
  also have "\<dots> = of_int j"
    by simp
  finally show ?thesis
    by (simp add: q_def)
qed

lemma nearest_double_int:
  assumes "\<bar>j\<bar> < 2 ^ 53"
  shows "nearest_double (of_int j) = Fin (of_int j)"
proof -
  consider "j = 0" | "0 < j" | "j < 0"
    by linarith
  then show ?thesis
  proof cases
    case 1
    then show ?thesis by (simp add: nearest_double_def)
  next
    case 2
    then have "nearest_pos \<bar>of_int j\<bar> = of_int j"
      using assms nearest_pos_int [of j] by simp
    moreover have "(of_int j :: rat) < 2 powi 1024"
    proof -
      have "j < 2 ^ 1024"
        using assms 2 by (rule_tac less_trans [of _ "2 ^ 53"]) simp_all
      then have "(of_int j :: rat) < of_int (2 ^ 1024)"
        by (simp only: of_int_less_iff)
      then show ?thesis by simp
    qed
    ultimately show ?thesis
      using 2 by (simp add: nearest_double_def)
  next
    case 3
    then have a: "\<bar>of_int j :: rat\<bar> = of_int (- j)"
      by simp
    have "nearest_pos (of_int (- j)) = of_int (- j)"
      using assms 3 by (intro nearest_pos_int) simp_all
    moreover have "(of_int (- j) :: rat) < 2 powi 1024"
    proof -
      have "- j < 2 ^ 1024"
        using assms 3 by (rule_tac less_trans [of _ "2 ^ 53"]) simp_all
      then have "(of_int (- j) :: rat) < of_int (2 ^ 1024)"
        by (simp only: of_int_less_iff)
      then show ?thesis by simp
    qed
    ultimately show ?thesis
      using 3 unfolding nearest_double_def a by simp
  qed
qed

lemma floor_nearest_div:
  assumes "1 \<le> s" "s < 2 ^ 53" "0 < n" "n < 2 ^ 32"
  shows "\<exists>y. nearest_double (of_int s / of_nat n) = Fin y \<and> \<lfloor>y\<rfloor> = s div int n"
proof -
  define N where "N = int n"
  define x :: rat where "x = of_int s / of_int N"
  define k where "k = s div N"
  define r where "r = s mod N"
  have N: "0 < N" "N < 2 ^ 32"
    using assms by (simp_all add: N_def)
  have r: "0 \<le> r" "r < N" "s = k * N + r"
    using N by (simp_all add: r_def k_def)
  have k: "0 \<le> k"
    using assms N by (simp add: k_def pos_imp_zdiv_nonneg_iff)
  have Nr: "0 < (of_int N :: rat)"
    using N by simp
  have x: "x = of_int k + of_int r / of_int N"
    using Nr r(3) by (simp add: x_def field_simps)
  have xpos: "0 < x"
    using assms Nr by (simp add: x_def)
  have "1 \<le> (of_int s :: rat)"
    using assms by simp
  then have "1 / of_int N \<le> x"
    unfolding x_def using Nr by (intro divide_right_mono) simp_all
  moreover have "(of_int N :: rat) \<le> 2 ^ 1022"
  proof -
    have "N \<le> 2 ^ 1022"
      using N(2) by (rule_tac order_trans [of _ "2 ^ 32"]) simp_all
    then have "(of_int N :: rat) \<le> of_int (2 ^ 1022)"
      by (simp only: of_int_le_iff)
    then show ?thesis by simp
  qed
  then have "1 / 2 ^ 1022 \<le> 1 / (of_int N :: rat)"
    using Nr by (intro divide_left_mono) simp_all
  ultimately have low: "2 powi (- 1022) \<le> x"
    by (simp add: power_int_minus_divide)
  have sr: "(of_int s :: rat) < 2 ^ 53"
    using assms(2) by (metis of_int_less_iff of_int_numeral of_int_power)
  have "x / 2 ^ 53 = (of_int s / 2 ^ 53) / of_int N"
    by (simp add: x_def)
  also have "\<dots> < 1 / of_int N"
    using sr Nr by (intro divide_strict_right_mono) simp_all
  finally have small': "x / 2 ^ 53 < 1 / of_int N" .
  have err': "\<bar>nearest_pos x - x\<bar> \<le> x / 2 ^ 53"
    using low by (rule nearest_pos_err)
  define d where "d = x / 2 ^ 53"
  define i where "i = 1 / (of_int N :: rat)"
  have small: "d < i" and err: "\<bar>nearest_pos x - x\<bar> \<le> d"
    using small' err' by (simp_all only: d_def i_def)
  have up: "nearest_pos x < of_int k + 1"
  proof -
    have "of_int r + 1 \<le> (of_int N :: rat)"
      using r(2) by (metis of_int_1 of_int_add of_int_le_iff zless_imp_add1_zle)
    then have "(of_int r + 1) / of_int N \<le> (1 :: rat)"
      using Nr by simp
    then have "x + 1 / of_int N \<le> of_int k + 1"
      unfolding x by (simp add: add_divide_distrib)
    then have "x + i \<le> of_int k + 1"
      by (simp only: i_def)
    then show ?thesis
      using err small by linarith
  qed
  have lo: "of_int k \<le> nearest_pos x"
  proof (cases "r = 0")
    case True
    then have xk: "x = of_int k"
      by (simp add: x)
    then have "0 < k"
      using xpos by simp
    moreover have "k < 2 ^ 53"
    proof -
      have "k \<le> s"
        using r True N by (simp add: k_def) (metis assms(1) div_by_1 zdiv_mono2 zero_less_one int_one_le_iff_zero_less order_trans zero_le_one)
      then show ?thesis using assms(2) by simp
    qed
    ultimately show ?thesis
      unfolding xk by (simp add: nearest_pos_int)
  next
    case False
    then have "1 \<le> r"
      using r(1) by simp
    then have "1 \<le> (of_int r :: rat)"
      by simp
    then have "1 / of_int N \<le> (of_int r :: rat) / of_int N"
      using Nr by (intro divide_right_mono) simp_all
    then have "of_int k \<le> x - 1 / of_int N"
      unfolding x by simp
    then have "of_int k \<le> x - i"
      by (simp only: i_def)
    then show ?thesis
      using err small by linarith
  qed
  have fin: "nearest_pos x < 2 powi 1024"
  proof -
    have "k + 1 \<le> 2 ^ 1024"
    proof -
      have "k \<le> s"
        using N assms(1) by (simp add: k_def) (metis div_by_1 zdiv_mono2 zero_less_one int_one_le_iff_zero_less order_trans zero_le_one)
      then have "k + 1 \<le> 2 ^ 53"
        using assms(2) by simp
      then show ?thesis
        by (rule order_trans) simp
    qed
    then have "(of_int (k + 1) :: rat) \<le> of_int (2 ^ 1024)"
      by (simp only: of_int_le_iff)
    then show ?thesis
      using up by simp
  qed
  have "nearest_double x = Fin (nearest_pos x)"
    using xpos fin by (simp add: nearest_double_def)
  moreover have "\<lfloor>nearest_pos x\<rfloor> = k"
    using lo up by (simp add: floor_eq_iff)
  ultimately show ?thesis
    by (simp add: x_def N_def k_def)
qed


lemma exponent_of_unique:
  assumes "0 < q" "2 powi e \<le> q" "q < 2 powi (e + 1)"
  shows "exponent_of q = e"
proof -
  have "(2::rat) powi exponent_of q < 2 powi (e + 1)"
    using exponent_of_lower [OF assms(1)] assms(3) by simp
  then have a: "exponent_of q < e + 1"
    using power_int_increasing [of "e + 1" "exponent_of q" "2::rat"] by force
  have "(2::rat) powi e < 2 powi (exponent_of q + 1)"
    using exponent_of_upper [OF assms(1)] assms(2) by simp
  then have "e < exponent_of q + 1"
    using power_int_increasing [of "exponent_of q + 1" e "2::rat"] by force
  with a show ?thesis by simp
qed

lemma round_half_even_down:
  "of_int n \<le> x \<Longrightarrow> x < of_int n + 1 / 2 \<Longrightarrow> round_half_even x = n"
proof -
  assume a: "of_int n \<le> x" "x < of_int n + 1 / 2"
  then have "\<lfloor>x\<rfloor> = n"
    by (simp add: floor_eq_iff)
  then show ?thesis
    using a by (simp add: round_half_even_def)
qed

lemma round_half_even_up:
  "of_int n - 1 / 2 < x \<Longrightarrow> x < of_int n \<Longrightarrow> round_half_even x = n"
proof -
  assume a: "of_int n - 1 / 2 < x" "x < of_int n"
  then have "\<lfloor>x\<rfloor> = n - 1"
    by (simp add: floor_eq_iff)
  then show ?thesis
    using a by (simp add: round_half_even_def)
qed

lemma round_half_even_tie:
  "x = of_int n + 1 / 2 \<Longrightarrow> round_half_even x = (if even n then n else n + 1)"
proof -
  assume a: "x = of_int n + 1 / 2"
  then have "\<lfloor>x\<rfloor> = n"
    by (simp add: floor_eq_iff)
  then show ?thesis
    using a by (simp add: round_half_even_def)
qed

lemma nearest_double_eval:
  assumes "0 < q" "2 powi e \<le> q" "q < 2 powi (e + 1)" "- 1022 \<le> e"
    and "round_half_even (q / 2 powi (e - 52)) = m"
    and "of_int m * 2 powi (e - 52) < (2::rat) powi 1024"
  shows "nearest_double q = Fin (of_int m * 2 powi (e - 52))"
proof -
  have "double_exponent q = e"
    using exponent_of_unique [OF assms(1-3)] assms(4) by (simp add: double_exponent_def)
  then have "nearest_pos q = of_int m * 2 powi (e - 52)"
    using assms(5) by (simp add: nearest_pos_def)
  then show ?thesis
    using assms(1,6) by (simp add: nearest_double_def)
qed

subsection \<open>Integers as numbers\<close>

text \<open>
  The arithmetic of the program on integers below \<open>2^53\<close> is exact as long as its
  results stay below \<open>2^53\<close>.
\<close>

lemma nearest_double_numeral:
  "numeral k < (2::int) ^ 53 \<Longrightarrow> nearest_double (numeral k) = Fin (numeral k)"
  using nearest_double_int [of "numeral k"] by simp

lemma nearest_double_neg_numeral:
  "numeral k < (2::int) ^ 53 \<Longrightarrow> nearest_double (- numeral k) = Fin (- numeral k)"
  using nearest_double_int [of "- numeral k"] by simp

lemma nearest_double_0: "nearest_double 0 = Fin 0"
  by (simp add: nearest_double_def)

lemma nearest_double_1: "nearest_double 1 = Fin 1"
  using nearest_double_int [of 1] by simp

lemma nearest_double_neg_1: "nearest_double (- 1) = Fin (- 1)"
  using nearest_double_int [of "- 1"] by simp

lemmas nearest_double_simps =
  nearest_double_numeral nearest_double_neg_numeral nearest_double_0 nearest_double_1
  nearest_double_neg_1

lemma js_int_Fin: "\<bar>i\<bar> < 2 ^ 53 \<Longrightarrow> js_int i = Fin (of_int i)"
  by (simp add: js_int_def nearest_double_int)

lemma js_nat_int: "js_nat n = js_int (int n)"
  by (simp add: js_nat_def js_int_def)

lemma js_nat_Fin: "n < 2 ^ 53 \<Longrightarrow> js_nat n = Fin (of_nat n)"
  by (simp add: js_nat_int js_int_Fin)

lemma js_int_add:
  "\<bar>a\<bar> < 2 ^ 53 \<Longrightarrow> \<bar>b\<bar> < 2 ^ 53 \<Longrightarrow> \<bar>a + b\<bar> < 2 ^ 53 \<Longrightarrow>
     js_add (js_int a) (js_int b) = js_int (a + b)"
  using nearest_double_int [of "a + b"] by (simp add: js_int_Fin)

lemma js_int_sub:
  "\<bar>a\<bar> < 2 ^ 53 \<Longrightarrow> \<bar>b\<bar> < 2 ^ 53 \<Longrightarrow> \<bar>a - b\<bar> < 2 ^ 53 \<Longrightarrow>
     js_sub (js_int a) (js_int b) = js_int (a - b)"
  using nearest_double_int [of "a - b"] by (simp add: js_int_Fin js_sub_def)

lemma js_mul_int:
  "\<bar>a\<bar> < 2 ^ 53 \<Longrightarrow> \<bar>b\<bar> < 2 ^ 53 \<Longrightarrow> \<bar>a * b\<bar> < 2 ^ 53 \<Longrightarrow>
     js_mul (js_int a) (js_int b) = js_int (a * b)"
  using nearest_double_int [of "a * b"] by (simp add: js_int_Fin)

lemma js_nat_mul_int:
  "int n < 2 ^ 53 \<Longrightarrow> \<bar>b\<bar> < 2 ^ 53 \<Longrightarrow> \<bar>int n * b\<bar> < 2 ^ 53 \<Longrightarrow>
     js_mul (js_nat n) (js_int b) = js_int (int n * b)"
  by (simp add: js_nat_int js_mul_int)

lemma js_add_int_nat:
  "\<bar>a\<bar> < 2 ^ 53 \<Longrightarrow> int n < 2 ^ 53 \<Longrightarrow> \<bar>a + int n\<bar> < 2 ^ 53 \<Longrightarrow>
     js_add (js_int a) (js_nat n) = js_int (a + int n)"
  by (simp add: js_nat_int js_int_add)

lemma js_floor_div_int:
  assumes "1 \<le> s" "s < 2 ^ 53" "0 < n" "n < 2 ^ 32"
  shows "js_floor (js_div (js_int s) (js_nat n)) = js_int (s div int n)"
proof -
  obtain y where y: "nearest_double (of_int s / of_nat n) = Fin y" "\<lfloor>y\<rfloor> = s div int n"
    using floor_nearest_div [OF assms] by blast
  have "0 \<le> s div int n"
    using assms by (simp add: pos_imp_zdiv_nonneg_iff)
  moreover have "s div int n \<le> s"
    using assms by (metis div_by_1 int_one_le_iff_zero_less of_nat_0_less_iff order_trans
        zdiv_mono2 zero_le_one zero_less_one)
  ultimately have d: "\<bar>s div int n\<bar> < 2 ^ 53"
    using assms(2) by simp
  have n: "int n < 2 ^ 53"
  proof -
    have "int n < 2 ^ 32"
      using assms(4) by simp
    then show ?thesis
      by (rule less_trans) simp
  qed
  have "js_div (js_int s) (js_nat n) = Fin y"
    using assms y(1) n by (simp add: js_nat_int js_int_Fin)
  then show ?thesis
    using y(2) d by (simp add: js_int_Fin)
qed

lemma js_lt_int:
  "\<bar>a\<bar> < 2 ^ 53 \<Longrightarrow> \<bar>b\<bar> < 2 ^ 53 \<Longrightarrow> js_lt (js_int a) (js_int b) = (a < b)"
  by (simp add: js_int_Fin)

lemma js_le_int:
  "\<bar>a\<bar> < 2 ^ 53 \<Longrightarrow> \<bar>b\<bar> < 2 ^ 53 \<Longrightarrow> js_le (js_int a) (js_int b) = (a \<le> b)"
  by (simp add: js_int_Fin)

lemma js_ge_int:
  "\<bar>a\<bar> < 2 ^ 53 \<Longrightarrow> \<bar>b\<bar> < 2 ^ 53 \<Longrightarrow> js_ge (js_int a) (js_int b) = (b \<le> a)"
  by (simp add: js_ge_def js_le_int)

lemma js_gt_int:
  "\<bar>a\<bar> < 2 ^ 53 \<Longrightarrow> \<bar>b\<bar> < 2 ^ 53 \<Longrightarrow> js_gt (js_int a) (js_int b) = (b < a)"
  by (simp add: js_gt_def js_lt_int)

lemma js_int_0: "js_int 0 = Fin 0"
  by (simp add: js_int_def nearest_double_0)

lemma js_nat_0: "js_nat 0 = Fin 0"
  by (simp add: js_nat_def nearest_double_0)

lemma js_isNaN_int: "\<bar>a\<bar> < 2 ^ 53 \<Longrightarrow> js_isNaN (js_int a) = False"
  by (simp add: js_int_Fin)

subsection \<open>The ranges of a download\<close>

lemma slice_bounds:
  assumes "1 \<le> s" "0 < n" "i < n"
  shows "0 \<le> s div int n" and "0 \<le> int i * (s div int n)"
    and "int i * (s div int n) + s div int n \<le> s"
proof -
  show d: "0 \<le> s div int n"
    using assms by (simp add: pos_imp_zdiv_nonneg_iff)
  then show "0 \<le> int i * (s div int n)"
    by simp
  have "int i + 1 \<le> int n"
    using assms(3) by simp
  then have "(int i + 1) * (s div int n) \<le> int n * (s div int n)"
    using d by (rule mult_right_mono)
  also have "\<dots> \<le> s"
    using assms(2) mult_div_mod_eq [of "int n" s] pos_mod_sign [of "int n" s] by linarith
  finally show "int i * (s div int n) + s div int n \<le> s"
    by (simp add: algebra_simps)
qed

lemma part_entry_int:
  assumes "1 \<le> s" "s < 2 ^ 53" "0 < n" "n < 2 ^ 32" "i < n"
  shows "part_entry r t f (js_int s) n i =
     (i, (r t (f @ show_nat i),
        (js_int (int i * (s div int n)),
         js_int (if int i = int n - 1 then s - 1
                 else int i * (s div int n) + s div int n - 1))))"
proof -
  note b = slice_bounds [OF assms(1,3,5)]
  have i: "int i < 2 ^ 53"
  proof -
    have "int i < int n" using assms(5) by simp
    also have "\<dots> < 2 ^ 32" using assms(4) by simp
    also have "\<dots> < (2::int) ^ 53" by simp
    finally show ?thesis .
  qed
  have d: "\<bar>s div int n\<bar> < 2 ^ 53" and m: "\<bar>int i * (s div int n)\<bar> < 2 ^ 53"
    and a: "\<bar>int i * (s div int n) + s div int n\<bar> < 2 ^ 53"
    and a1: "\<bar>int i * (s div int n) + s div int n - 1\<bar> < 2 ^ 53"
    and s1: "\<bar>s\<bar> < 2 ^ 53" "\<bar>s - 1\<bar> < 2 ^ 53"
    using b assms(1,2) by linarith+
  have mul: "js_mul (js_nat i) (js_int (s div int n)) = js_int (int i * (s div int n))"
    using i d m by (rule js_nat_mul_int)
  have add: "js_add (js_int (int i * (s div int n))) (js_int (s div int n)) =
      js_int (int i * (s div int n) + s div int n)"
    using m d a by (rule js_int_add)
  have sub: "js_sub (js_int (int i * (s div int n) + s div int n)) (js_int 1) =
      js_int (int i * (s div int n) + s div int n - 1)"
    using a _ a1 by (rule js_int_sub) simp
  have sub1: "js_sub (js_int s) (js_int 1) = js_int (s - 1)"
    using s1(1) _ s1(2) by (rule js_int_sub) simp
  show ?thesis
    unfolding part_entry_def Let_def js_floor_div_int [OF assms(1-4)] mul add sub sub1
    by simp
qed

lemma js_int_eq_Fin:
  "0 \<le> a \<Longrightarrow> a < 2 ^ 53 \<Longrightarrow> js_int a = Fin (of_int a)"
  by (simp add: js_int_Fin)

lemma foldl_js_int:
  assumes "0 \<le> a" "\<forall>x\<in>set xs. 0 \<le> g x" "a + sum_list (map g xs) < 2 ^ 53"
  shows "foldl js_add (js_int a) (map (\<lambda>i. js_int (g i)) xs) = js_int (a + sum_list (map g xs))"
  using assms
proof (induction xs arbitrary: a)
  case Nil
  then show ?case by simp
next
  case (Cons x xs)
  have nn: "0 \<le> sum_list (map g xs)"
    using Cons.prems(2) by (intro sum_list_nonneg) auto
  have gx: "0 \<le> g x"
    using Cons.prems(2) by simp
  have "js_add (js_int a) (js_int (g x)) = js_int (a + g x)"
    using Cons.prems(1,3) nn gx by (intro js_int_add) simp_all
  moreover have "foldl js_add (js_int (a + g x)) (map (\<lambda>i. js_int (g i)) xs) =
      js_int (a + g x + sum_list (map g xs))"
    using Cons.prems gx by (intro Cons.IH) (simp_all add: add.assoc)
  ultimately show ?case
    by (simp add: add.assoc)
qed

lemma range_length_entry:
  assumes "1 \<le> s" "s < 2 ^ 53" "0 < n" "n < 2 ^ 32" "i < n"
  shows "range_length (part_entry r t f (js_int s) n i) =
     js_int (if int i = int n - 1 then s - int i * (s div int n) else s div int n)"
proof -
  note b = slice_bounds [OF assms(1,3,5)]
  have d: "\<bar>s div int n\<bar> < 2 ^ 53" and m: "\<bar>int i * (s div int n)\<bar> < 2 ^ 53"
    and a1: "\<bar>int i * (s div int n) + s div int n - 1\<bar> < 2 ^ 53"
    and s1: "\<bar>s - 1\<bar> < 2 ^ 53" "\<bar>s - 1 - int i * (s div int n)\<bar> < 2 ^ 53"
      "\<bar>s - int i * (s div int n)\<bar> < 2 ^ 53" "\<bar>s div int n - 1\<bar> < 2 ^ 53"
    using b assms(1,2) by linarith+
  show ?thesis
  proof (cases "int i = int n - 1")
    case True
    have "js_sub (js_int (s - 1)) (js_int (int i * (s div int n))) =
        js_int (s - 1 - int i * (s div int n))"
      using s1(1) m s1(2) by (rule js_int_sub)
    moreover have "js_add (js_int (s - 1 - int i * (s div int n))) (js_int 1) =
        js_int (s - 1 - int i * (s div int n) + 1)"
      using s1(2) _ by (rule js_int_add) (use s1(3) in simp_all)
    ultimately show ?thesis
      using True
      by (simp add: range_length_def range_start_def range_end_def part_entry_int [OF assms])
  next
    case False
    have "js_sub (js_int (int i * (s div int n) + s div int n - 1)) (js_int (int i * (s div int n))) =
        js_int (int i * (s div int n) + s div int n - 1 - int i * (s div int n))"
      using a1 m by (rule js_int_sub) (use s1(4) in simp)
    moreover have "js_add (js_int (s div int n - 1)) (js_int 1) = js_int (s div int n - 1 + 1)"
      using s1(4) _ by (rule js_int_add) (use d in simp_all)
    ultimately show ?thesis
      using False
      by (simp add: range_length_def range_start_def range_end_def part_entry_int [OF assms])
  qed
qed

lemma sum_slices:
  "sum_list (map (\<lambda>i. if int i = int (Suc m) - 1 then s - int i * d else d) [0..<Suc m]) = s"
proof -
  have "map (\<lambda>i. if int i = int (Suc m) - 1 then s - int i * d else d) [0..<m] = map (\<lambda>i. d) [0..<m]"
    by (rule map_cong) auto
  then have "sum_list (map (\<lambda>i. if int i = int (Suc m) - 1 then s - int i * d else d) [0..<m]) = int m * d"
    by (simp only: sum_list_triv length_map length_upt) simp
  then show ?thesis
    by simp
qed

lemma total_length_parts:
  assumes "1 \<le> s" "s < 2 ^ 53" "0 < n" "n < 2 ^ 32"
  shows "total_length (build_parts r t f (js_int s) n) = js_int s"
proof -
  obtain m where m: "n = Suc m" using assms(3) by (cases n) auto
  define g where "g = (\<lambda>i. if int i = int n - 1 then s - int i * (s div int n) else s div int n)"
  have "range_length (part_entry r t f (js_int s) n x) = js_int (g x)" if "x < n" for x
    unfolding g_def using that by (rule range_length_entry [OF assms])
  then have "map range_length (build_parts r t f (js_int s) n) = map (\<lambda>i. js_int (g i)) [0..<n]"
    by (simp add: build_parts_def)
  moreover have "\<forall>x\<in>set [0..<n]. 0 \<le> g x"
  proof
    fix x assume "x \<in> set [0..<n]"
    then have x: "x < n" by simp
    have "0 \<le> s - int x * (s div int n)" "0 \<le> s div int n"
      using slice_bounds [OF assms(1,3) x] by linarith+
    then show "0 \<le> g x"
      unfolding g_def by (cases "int x = int n - 1") simp_all
  qed
  moreover have "sum_list (map g [0..<n]) = s"
    unfolding g_def m by (rule sum_slices)
  ultimately show ?thesis
    unfolding total_length_def
    using foldl_js_int [of 0 "[0..<n]" g] assms(2) by simp
qed

lemma File_new_parts:
  "File_new h fsys opts = Inr (f, fs') \<Longrightarrow> f_parts f = o_parts opts"
  by (auto simp: File_new_def Let_def init_File_def File_log_def
      split: if_splits option.splits)

lemma download_Inr_parts:
  assumes "download h fsys fetched m args = Inr (file, m', fs')"
    and "getData h (a_url args) fetched = Inr d"
  shows "m_connections m < 2 ^ 32 \<and>
     (\<exists>t. f_parts file =
        build_parts (resolve h) t (finalName_of h args d) (u_size d) (m_connections m))"
  using assms unfolding download_def Let_def
  by (auto split: if_splits option.splits sum.splits dest!: File_new_parts)

subsection \<open>Numbers and their numerals\<close>

lemmas show_simps = show_int_def show_nat.simps digit_char_def

lemma js_to_string_int:
  "\<bar>i\<bar> < 2 ^ 53 \<Longrightarrow> js_to_string h (js_int i) = show_int i"
proof -
  assume a: "\<bar>i\<bar> < 2 ^ 53"
  then have "\<bar>i\<bar> < 10 ^ 21"
    by simp
  then have "\<bar>(of_int i :: rat)\<bar> < 10 ^ 21"
    by (metis of_int_abs of_int_less_iff of_int_numeral of_int_power)
  then show ?thesis
    using a by (simp add: js_to_string_def js_int_Fin)
qed

subsection \<open>The start of a connection\<close>

text \<open>
  \<open>start\<close> resolves at once, with no request, exactly when
  \<open>range[0] + partSize >= range[1]\<close>.
\<close>

lemma Connection_start_resolved_iff:
  "snd (snd (Connection_start h fsys c)) = Resolved True \<longleftrightarrow>
     js_ge (js_add (fst (c_range c)) (js_nat (partSize_of fsys (c_file c)))) (snd (c_range c))"
  by (simp add: Connection_start_def Let_def)

text \<open>
  Claim C3, at the input where the program departs from it. The claim has \<open>start\<close>
  resolve at once exactly when \<open>range.start + existing > range.end\<close>. For the range
  \<open>[0, 9]\<close> and a part file of 9 bytes, \<open>0 + 9 > 9\<close> is false and byte 9 is still to
  be fetched, yet \<open>start\<close> logs that the part is already downloaded, emits
  \<open>finish(true)\<close>, marks the connection finished and resolves with \<open>true\<close> without a
  request: the test of line 171 is \<open>>=\<close>.
\<close>

theorem start_skips_last_byte:
  "(let c = sample_connection 0 ''/tmp/f/f.bin0'' 0 9;
        r = Connection_start sample_host (sample_fs [] [(''/tmp/f/f.bin0'', 9)]) c
    in partSize_of (sample_fs [] [(''/tmp/f/f.bin0'', 9)]) (c_file c) = 9 \<and>
       \<not> js_gt (js_add (fst (c_range c)) (js_nat 9)) (snd (c_range c)) \<and>
       snd (snd r) = Resolved True \<and> c_finished (fst r) \<and>
       fst (snd r) = [Connection_log c ''Starting download with a limit speed of: ? B/s'',
                      Connection_log c ''Part is already downloaded'', Finish True] \<and>
       range_header (snd (snd r)) = None)"
  by (simp add: Let_def Connection_start_def sample_connection_def sample_fs_def partSize_of_def
      js_add_int_nat js_gt_int js_ge_int range_header_def sample_host_def)

lemma range_header_general:
  assumes "\<not> js_ge (js_add (fst (c_range c)) (js_nat (partSize_of fsys (c_file c)))) (snd (c_range c))"
  shows "range_header (snd (snd (Connection_start h fsys c))) =
            Some (''bytes=''
                  @ js_to_string h (js_add (fst (c_range c)) (js_nat (partSize_of fsys (c_file c))))
                  @ ''-'' @ js_to_string h (snd (c_range c)))"
  using assms by (simp add: Connection_start_def Let_def range_header_def)

lemma range_header_int:
  assumes r: "c_range c = (js_int a, js_int b)"
    and n: "partSize_of fsys (c_file c) = n"
    and lt: "a + int n < b"
    and sa: "js_to_string h (js_int (a + int n)) = x"
    and sb: "js_to_string h (js_int b) = y"
    and bounds: "\<bar>a\<bar> < 2 ^ 53" "int n < 2 ^ 53" "\<bar>a + int n\<bar> < 2 ^ 53" "\<bar>b\<bar> < 2 ^ 53"
  shows "range_header (snd (snd (Connection_start h fsys c))) = Some (''bytes='' @ x @ ''-'' @ y)"
proof -
  have add: "js_add (js_int a) (js_nat n) = js_int (a + int n)"
    using bounds(1-3) by (rule js_add_int_nat)
  have ge: "js_ge (js_int (a + int n)) (js_int b) = (b \<le> a + int n)"
    using bounds(3,4) by (rule js_ge_int)
  have pre: "\<not> js_ge (js_add (fst (c_range c)) (js_nat (partSize_of fsys (c_file c)))) (snd (c_range c))"
    unfolding r n fst_conv snd_conv add ge using lt by simp
  show ?thesis
    using range_header_general [OF pre, of h]
    unfolding r n fst_conv snd_conv add sa sb .
qed

lemma str_3000: "js_to_string h (js_int 3000) = ''3000''"
  by (simp add: js_to_string_int show_simps)

lemma str_4999: "js_to_string h (js_int 4999) = ''4999''"
  by (simp add: js_to_string_int show_simps)

lemma str_6500: "js_to_string h (js_int 6500) = ''6500''"
  by (simp add: js_to_string_int show_simps)

lemma str_9999: "js_to_string h (js_int 9999) = ''9999''"
  by (simp add: js_to_string_int show_simps)

lemma upt_0_2: "[0..<2] = [0, Suc 0]"
  by (simp add: upt_rec)

lemma parts_10000_2:
  "map snd (build_parts r t f (js_int 10000) 2) =
     [(r t (f @ ''0''), js_int 0, js_int 4999), (r t (f @ ''1''), js_int 5000, js_int 9999)]"
  by (simp add: build_parts_def upt_0_2 part_entry_int show_simps)

text \<open>
  Claim C5. A connection whose \<open>start\<close> does not resolve at once issues a request
  with the header \<open>Range: bytes=<range.start + existing>-<range.end>\<close>, where
  \<open>existing\<close> is the size of its part file. In particular, for the two ranges of a
  download of 10000 bytes over 2 connections and part files of 3000 and 1500 bytes, the
  headers are \<open>bytes=3000-4999\<close> and \<open>bytes=6500-9999\<close>.
\<close>

theorem start_range_header:
  "(\<not> js_ge (js_add (fst (c_range c)) (js_nat (partSize_of fsys (c_file c)))) (snd (c_range c))
      \<longrightarrow> range_header (snd (snd (Connection_start h fsys c))) =
            Some (''bytes=''
                  @ js_to_string h (js_add (fst (c_range c)) (js_nat (partSize_of fsys (c_file c))))
                  @ ''-'' @ js_to_string h (snd (c_range c)))) \<and>
   (\<forall>w0 w1. map (snd \<circ> snd) (build_parts r t f (js_int 10000) 2) = [c_range w0, c_range w1] \<and>
            partSize_of fsys (c_file w0) = 3000 \<and> partSize_of fsys (c_file w1) = 1500
      \<longrightarrow> range_header (snd (snd (Connection_start h fsys w0))) = Some ''bytes=3000-4999'' \<and>
          range_header (snd (snd (Connection_start h fsys w1))) = Some ''bytes=6500-9999'')"
proof (intro conjI impI allI)
  assume "\<not> js_ge (js_add (fst (c_range c)) (js_nat (partSize_of fsys (c_file c)))) (snd (c_range c))"
  then show "range_header (snd (snd (Connection_start h fsys c))) =
            Some (''bytes=''
                  @ js_to_string h (js_add (fst (c_range c)) (js_nat (partSize_of fsys (c_file c))))
                  @ ''-'' @ js_to_string h (snd (c_range c)))"
    by (rule range_header_general)
next
  fix w0 w1 :: Connection
  assume a: "map (snd \<circ> snd) (build_parts r t f (js_int 10000) 2) = [c_range w0, c_range w1] \<and>
            partSize_of fsys (c_file w0) = 3000 \<and> partSize_of fsys (c_file w1) = 1500"
  have "map (snd \<circ> snd) (build_parts r t f (js_int 10000) 2) =
      [(js_int 0, js_int 4999), (js_int 5000, js_int 9999)]"
    using parts_10000_2 [of r t f] unfolding map_map [symmetric] by simp
  with a have r0: "c_range w0 = (js_int 0, js_int 4999)" by simp
  have n0: "partSize_of fsys (c_file w0) = 3000" using a by simp
  have "range_header (snd (snd (Connection_start h fsys w0))) = Some (''bytes='' @ ''3000'' @ ''-'' @ ''4999'')"
    by (rule range_header_int [OF r0 n0]) (simp_all add: str_3000 str_4999)
  then show "range_header (snd (snd (Connection_start h fsys w0))) = Some ''bytes=3000-4999''"
    by simp
next
  fix w0 w1 :: Connection
  assume a: "map (snd \<circ> snd) (build_parts r t f (js_int 10000) 2) = [c_range w0, c_range w1] \<and>
            partSize_of fsys (c_file w0) = 3000 \<and> partSize_of fsys (c_file w1) = 1500"
  have "map (snd \<circ> snd) (build_parts r t f (js_int 10000) 2) =
      [(js_int 0, js_int 4999), (js_int 5000, js_int 9999)]"
    using parts_10000_2 [of r t f] unfolding map_map [symmetric] by simp
  with a have r1: "c_range w1 = (js_int 5000, js_int 9999)" by simp
  have n1: "partSize_of fsys (c_file w1) = 1500" using a by simp
  have "range_header (snd (snd (Connection_start h fsys w1))) = Some (''bytes='' @ ''6500'' @ ''-'' @ ''9999'')"
    by (rule range_header_int [OF r1 n1]) (simp_all add: str_6500 str_9999)
  then show "range_header (snd (snd (Connection_start h fsys w1))) = Some ''bytes=6500-9999''"
    by simp
qed

text \<open>The two connections of that download, on the sample platform.\<close>

theorem start_range_header_witness:
  "(let fsys = sample_fs [''/tmp/f''] [(''/tmp/f/f.bin0'', 3000), (''/tmp/f/f.bin1'', 1500)];
        w0 = sample_connection 0 ''/tmp/f/f.bin0'' 0 4999;
        w1 = sample_connection 1 ''/tmp/f/f.bin1'' 5000 9999
    in map snd (build_parts sample_resolve ''/tmp/f'' ''f.bin'' (js_int 10000) 2) =
         [(c_file w0, c_range w0), (c_file w1, c_range w1)] \<and>
       partSize_of fsys (c_file w0) = 3000 \<and> partSize_of fsys (c_file w1) = 1500 \<and>
       \<not> js_ge (js_add (fst (c_range w0)) (js_nat (partSize_of fsys (c_file w0)))) (snd (c_range w0)) \<and>
       range_header (snd (snd (Connection_start sample_host fsys w0))) = Some ''bytes=3000-4999'' \<and>
       range_header (snd (snd (Connection_start sample_host fsys w1))) = Some ''bytes=6500-9999'')"
proof -
  define fsys where "fsys = sample_fs [''/tmp/f''] [(''/tmp/f/f.bin0'', 3000), (''/tmp/f/f.bin1'', 1500)]"
  define w0 where "w0 = sample_connection 0 ''/tmp/f/f.bin0'' 0 4999"
  define w1 where "w1 = sample_connection 1 ''/tmp/f/f.bin1'' 5000 9999"
  have ps: "map snd (build_parts sample_resolve ''/tmp/f'' ''f.bin'' (js_int 10000) 2) =
         [(c_file w0, c_range w0), (c_file w1, c_range w1)]"
    by (simp add: parts_10000_2 w0_def w1_def sample_connection_def sample_resolve_def)
  then have ps2: "map (snd \<circ> snd) (build_parts sample_resolve ''/tmp/f'' ''f.bin'' (js_int 10000) 2) =
         [c_range w0, c_range w1]"
    unfolding map_map [symmetric] by simp
  have sz: "partSize_of fsys (c_file w0) = 3000" "partSize_of fsys (c_file w1) = 1500"
    by (simp_all add: fsys_def w0_def w1_def sample_connection_def partSize_of_def sample_fs_def)
  have ns: "\<not> js_ge (js_add (fst (c_range w0)) (js_nat (partSize_of fsys (c_file w0)))) (snd (c_range w0))"
    unfolding sz by (simp add: w0_def sample_connection_def js_add_int_nat js_ge_int)
  have "range_header (snd (snd (Connection_start sample_host fsys w0))) = Some ''bytes=3000-4999'' \<and>
        range_header (snd (snd (Connection_start sample_host fsys w1))) = Some ''bytes=6500-9999''"
    by (rule start_range_header [of w0 fsys sample_host sample_resolve "''/tmp/f''" "''f.bin''",
          THEN conjunct2, rule_format, of w0 w1])
       (simp add: ps2 sz)
  then show ?thesis
    using ps sz ns unfolding Let_def fsys_def [symmetric] w0_def [symmetric] w1_def [symmetric]
    by simp
qed

subsection \<open>The prober and the constructor\<close>

lemma getData_Inr_iff:
  "getData h url fetched = Inr d \<longleftrightarrow>
     (\<exists>res. fetched = Some res \<and> ok res \<and>
        d = \<lparr>u_fileType = getFileType h url res,
             u_size = (if js_isNaN (js_Number h (headers res ''content-length'')) then Fin 0
                       else js_Number h (headers res ''content-length'')),
             u_acceptRange = (headers res ''accept-ranges'' = Some ''bytes''),
             u_fileName = getFileName h url res,
             u_contentType = (case headers res ''content-type'' of Some v \<Rightarrow> v | None \<Rightarrow> '''')\<rparr>)"
  by (cases fetched) (auto simp: getData_def Let_def)

lemma getData_Inl_iff:
  "(\<exists>e. getData h url fetched = Inl e) \<longleftrightarrow> (fetched = None \<or> (\<exists>res. fetched = Some res \<and> \<not> ok res))"
  by (cases fetched) (auto simp: getData_def Let_def)

lemma File_new_error_name:
  "File_new h fsys opts = Inl e \<Longrightarrow>
     (\<exists>msg. e = PrometeoError InvalidArgumentError msg) \<or> (\<exists>msg. e = PrometeoError InternalError msg)"
  by (auto simp: File_new_def Let_def split: if_splits option.splits)

lemma File_new_size_0:
  "o_size opts = js_int 0 \<Longrightarrow> \<exists>msg. File_new h fsys opts = Inl (PrometeoError InvalidArgumentError msg)"
  by (simp add: File_new_def js_int_Fin js_int_0)

lemma File_new_size_0_message:
  "o_size opts = js_int 0 \<Longrightarrow> \<not> trim_is_empty (o_url opts) \<Longrightarrow> \<not> trim_is_empty (o_path opts) \<Longrightarrow>
   \<not> trim_is_empty (o_destination opts) \<Longrightarrow> \<not> trim_is_empty (o_name opts) \<Longrightarrow>
   \<not> trim_is_empty (o_contentType opts) \<Longrightarrow>
   File_new h fsys opts = Inl (PrometeoError InvalidArgumentError ''The size must be a positive number.'')"
  by (simp add: File_new_def js_int_Fin js_int_0)

lemma filename_check: "(truthy v \<and> or_else v [] = []) = False"
  by (cases v) (auto simp: truthy_def or_else_def)

lemma download_size_0:
  assumes "getData h (a_url args) fetched = Inr d" and "u_size d = js_int 0"
  shows "\<exists>e. download h fsys fetched m args = Inl e"
proof -
  have no: "File_new h fs1 \<lparr>o_url = a_url args, o_path = p, o_name = n, o_size = u_size d,
      o_parts = ps, o_resumed = None, o_speed = sp, o_destination = dst,
      o_contentType = ct, o_finished = False\<rparr> \<noteq> Inr x"
    for fs1 p n ps sp dst ct x
    using File_new_size_0 [of "\<lparr>o_url = a_url args, o_path = p, o_name = n, o_size = u_size d,
      o_parts = ps, o_resumed = None, o_speed = sp, o_destination = dst,
      o_contentType = ct, o_finished = False\<rparr>" h fs1] assms(2)
    by auto
  show ?thesis
    unfolding download_def Let_def using assms(1)
    by (auto simp: no split: option.splits sum.splits)
qed

text \<open>
  Claim C9. When the response of the \<open>HEAD\<close> request has no \<open>Content-Length\<close>, or
  one that \<open>Number\<close> reads as \<open>NaN\<close>, \<open>getData\<close> reports the size \<open>0\<close>. The
  constructor of \<open>File\<close> throws an \<open>InvalidArgumentError\<close> for every plan of size
  \<open>0\<close>, the one for the size (\<open>The size must be a positive number.\<close>) when the
  strings checked before it are not blank. Hence \<open>download\<close> rejects whatever its
  other arguments are: it returns no \<open>File\<close>, and connections are spawned only by the
  \<open>start\<close> of a \<open>File\<close>.
\<close>

theorem unknown_length_rejected:
  assumes "ok res"
    and "headers res ''content-length'' = None \<or>
         js_isNaN (js_Number h (headers res ''content-length''))"
  shows "(\<exists>d. getData h url (Some res) = Inr d \<and> u_size d = js_int 0) \<and>
    (\<forall>fsys opts. o_size opts = js_int 0 \<longrightarrow>
       (\<exists>msg. File_new h fsys opts = Inl (PrometeoError InvalidArgumentError msg))) \<and>
    (\<forall>fsys opts. o_size opts = js_int 0 \<and> \<not> trim_is_empty (o_url opts) \<and>
         \<not> trim_is_empty (o_path opts) \<and> \<not> trim_is_empty (o_destination opts) \<and>
         \<not> trim_is_empty (o_name opts) \<and> \<not> trim_is_empty (o_contentType opts) \<longrightarrow>
       File_new h fsys opts =
         Inl (PrometeoError InvalidArgumentError ''The size must be a positive number.'')) \<and>
    (\<forall>fsys m args. \<exists>e. download h fsys (Some res) m args = Inl e)"
proof -
  have size0: "(if js_isNaN (js_Number h (headers res ''content-length'')) then Fin 0
                else js_Number h (headers res ''content-length'')) = js_int 0"
    using assms(2) by (auto simp: js_Number_def js_int_Fin js_int_0)
  have g: "\<exists>d. getData h u (Some res) = Inr d \<and> u_size d = js_int 0" for u
    using assms(1) size0 by (simp add: getData_Inr_iff)
  have d: "\<exists>e. download h fsys (Some res) m args = Inl e" for fsys m args
    using g [of "a_url args"] download_size_0 by blast
  show ?thesis
    using g [of url] d File_new_size_0 File_new_size_0_message by blast
qed

text \<open>A response whose \<open>Content-Length\<close> is not a number, on the sample platform.\<close>

theorem unknown_length_rejected_witness:
  "(let res = sample_response [(''content-length'', ''abc''), (''accept-ranges'', ''bytes''),
                               (''content-type'', ''application/octet-stream'')]
    in ok res \<and> js_isNaN (js_Number sample_host (headers res ''content-length'')) \<and>
       (\<exists>d. getData sample_host ''http://origin/f.bin'' (Some res) = Inr d \<and> u_size d = js_int 0) \<and>
       download sample_host (sample_fs [''/out''] []) (Some res) sample_manager
           \<lparr>a_url = ''http://origin/f.bin'', a_path = ''/out'', a_filename = None\<rparr> =
         Inl (PrometeoError InvalidArgumentError ''The size must be a positive number.''))"
proof -
  define res where "res = sample_response [(''content-length'', ''abc''), (''accept-ranges'', ''bytes''),
                               (''content-type'', ''application/octet-stream'')]"
  have 1: "ok res"
    by (simp add: res_def sample_response_def)
  have 2: "js_isNaN (js_Number sample_host (headers res ''content-length''))"
    by (simp add: res_def sample_response_def js_Number_def sample_host_def sample_number_def)
  have 3: "\<exists>d. getData sample_host ''http://origin/f.bin'' (Some res) = Inr d \<and> u_size d = js_int 0"
    using unknown_length_rejected [of res sample_host "''http://origin/f.bin''"] 1 2 by blast
  have g: "getData sample_host ''http://origin/f.bin'' (Some res) =
     Inr \<lparr>u_fileType = ''.bin'', u_size = Fin 0, u_acceptRange = True, u_fileName = ''f.bin'',
          u_contentType = ''application/octet-stream''\<rparr>"
    using 2 by (simp add: getData_def res_def sample_response_def sample_host_def Let_def
        sample_extname_def)
  have 4: "download sample_host (sample_fs [''/out''] []) (Some res) sample_manager
           \<lparr>a_url = ''http://origin/f.bin'', a_path = ''/out'', a_filename = None\<rparr> =
         Inl (PrometeoError InvalidArgumentError ''The size must be a positive number.'')"
    unfolding download_def Let_def
    apply (simp add: g URLUtils_validate_def truthy_def)
    apply (simp add: sample_host_def ensure_dir_def existsSync_def sample_fs_def isFile_def
        destination_of_def finalName_of_def fileType_of_def or_else_def truthy_def
        isValidFileName_def filename_char_def sample_resolve_def sample_manager_def)
    apply (subst File_new_size_0_message)
          apply (simp_all add: js_int_Fin js_int_0 trim_is_empty_def js_whitespace_def)
    done
  show ?thesis
    unfolding Let_def res_def [symmetric] using 1 2 3 4 by simp
qed

subsection \<open>The rejections of \<open>download\<close>\<close>

lemma download_after_argument_checks:
  assumes "a_url args \<noteq> []" and "a_path args \<noteq> []"
  shows "download h fsys fetched m args =
     (if \<not> URLUtils_validate h (a_url args)
      then Inl (PrometeoError BadURLError ''The URL is invalid.'')
      else
        (case getData h (a_url args) fetched of
           Inl e \<Rightarrow> Inl (PrometeoError BadURLError ''The URL returned an incorrect answer.'')
         | Inr d \<Rightarrow>
             if \<not> u_acceptRange d
             then Inl (PrometeoError BadURLError ''The URL does not accept range requests.'')
             else
               (case ensure_dir h fsys (a_path args) of
                  None \<Rightarrow> Inl (PrometeoError InternalError
                    ''An error occurred while trying to create the temporary folder for the file.'')
                | Some fs1 \<Rightarrow>
                    if existsSync fs1 (destination_of h args d) \<and> isFile fs1 (destination_of h args d)
                    then Inl (PrometeoError InvalidArgumentError
                                ''The path already exists. Delete the file or rename it.'')
                    else if 2 ^ 32 \<le> m_connections m
                    then Inl (NativeError ''RangeError: Invalid array length'')
                    else
                      (case File_new h fs1
                              \<lparr>o_url = a_url args,
                               o_path = resolve h (m_tempDir m)
                                  (remove_first (fileType_of h args d) (finalName_of h args d)),
                               o_name = finalName_of h args d,
                               o_size = u_size d,
                               o_parts = build_parts (resolve h)
                                  (resolve h (m_tempDir m)
                                     (remove_first (fileType_of h args d) (finalName_of h args d)))
                                  (finalName_of h args d) (u_size d) (m_connections m),
                               o_resumed = None, o_speed = m_speedLimit m,
                               o_destination = destination_of h args d,
                               o_contentType = u_contentType d, o_finished = False\<rparr> of
                         Inl e \<Rightarrow> Inl e
                       | Inr (file, fs2) \<Rightarrow>
                           Inr (file, m\<lparr>m_downloads := m_downloads m @ [file]\<rparr>, fs2)))))"
  unfolding download_def Let_def using assms by (simp add: filename_check)

lemma File_new_not_BadURLError:
  "File_new h fsys opts \<noteq> Inl (PrometeoError BadURLError msg)"
  using File_new_error_name [of h fsys opts "PrometeoError BadURLError msg"] by auto

text \<open>
  Claim C6 as stated fails: the empty URL does not parse, yet \<open>download\<close> rejects it
  with an \<open>InvalidArgumentError\<close>, by the argument check of line 266 that comes before
  the validation of the URL.
\<close>

theorem download_empty_url_counterexample:
  "\<not> URLUtils_validate sample_host [] \<and>
   download sample_host (sample_fs [''/out''] [])
       (Some (sample_response [(''content-length'', ''10''), (''accept-ranges'', ''bytes'')]))
       sample_manager \<lparr>a_url = [], a_path = ''/out'', a_filename = None\<rparr> =
     Inl (PrometeoError InvalidArgumentError ''The URL must be a non-empty string.'')"
  by (simp add: download_def URLUtils_validate_def sample_host_def)

text \<open>
  Claim C6, amended. For arguments that pass the argument checks (a URL and a path that
  are not empty), \<open>download\<close> rejects with a \<open>BadURLError\<close> if and only if the URL
  does not parse, the \<open>HEAD\<close> request fails or its response is not \<open>ok\<close>, or
  \<open>Accept-Ranges\<close> is not \<open>bytes\<close>. When none of these holds and the destination
  directory exists or is created, \<open>download\<close> rejects with an
  \<open>InvalidArgumentError\<close> if the destination path exists as a file.
\<close>

theorem download_rejections:
  assumes "a_url args \<noteq> []" and "a_path args \<noteq> []"
  shows "((\<exists>msg. download h fsys fetched m args = Inl (PrometeoError BadURLError msg)) \<longleftrightarrow>
            (\<not> URLUtils_validate h (a_url args) \<or> fetched = None \<or>
             (\<exists>res. fetched = Some res \<and>
                    (\<not> ok res \<or> headers res ''accept-ranges'' \<noteq> Some ''bytes'')))) \<and>
         (\<forall>res d fs1.
            URLUtils_validate h (a_url args) \<and> fetched = Some res \<and> ok res \<and>
            headers res ''accept-ranges'' = Some ''bytes'' \<and>
            getData h (a_url args) fetched = Inr d \<and>
            ensure_dir h fsys (a_path args) = Some fs1 \<and>
            existsSync fs1 (destination_of h args d) \<and> isFile fs1 (destination_of h args d)
            \<longrightarrow> download h fsys fetched m args =
                  Inl (PrometeoError InvalidArgumentError
                         ''The path already exists. Delete the file or rename it.''))"
proof (intro conjI allI impI)
  show "(\<exists>msg. download h fsys fetched m args = Inl (PrometeoError BadURLError msg)) \<longleftrightarrow>
            (\<not> URLUtils_validate h (a_url args) \<or> fetched = None \<or>
             (\<exists>res. fetched = Some res \<and>
                    (\<not> ok res \<or> headers res ''accept-ranges'' \<noteq> Some ''bytes'')))"
  proof (cases "URLUtils_validate h (a_url args)")
    case False
    then show ?thesis
      by (simp add: download_after_argument_checks [OF assms])
  next
    case valid: True
    show ?thesis
    proof (cases "getData h (a_url args) fetched")
      case (Inl e)
      then have "fetched = None \<or> (\<exists>res. fetched = Some res \<and> \<not> ok res)"
        using getData_Inl_iff [of h "a_url args" fetched] by blast
      then show ?thesis
        using valid Inl by (auto simp: download_after_argument_checks [OF assms])
    next
      case (Inr d)
      then obtain res where res: "fetched = Some res" "ok res"
          "u_acceptRange d = (headers res ''accept-ranges'' = Some ''bytes'')"
        by (auto simp: getData_Inr_iff)
      show ?thesis
      proof (cases "u_acceptRange d")
        case False
        then show ?thesis
          using valid Inr res by (simp add: download_after_argument_checks [OF assms])
      next
        case True
        have "download h fsys fetched m args \<noteq> Inl (PrometeoError BadURLError msg)" for msg
          using valid Inr True File_new_not_BadURLError
          by (auto simp: download_after_argument_checks [OF assms]
              split: option.splits sum.splits)
        then show ?thesis
          using valid res True by auto
      qed
    qed
  qed
next
  fix res d fs1
  assume "URLUtils_validate h (a_url args) \<and> fetched = Some res \<and> ok res \<and>
            headers res ''accept-ranges'' = Some ''bytes'' \<and>
            getData h (a_url args) fetched = Inr d \<and>
            ensure_dir h fsys (a_path args) = Some fs1 \<and>
            existsSync fs1 (destination_of h args d) \<and> isFile fs1 (destination_of h args d)"
  then have v: "URLUtils_validate h (a_url args)"
    and g: "getData h (a_url args) fetched = Inr d"
    and e: "ensure_dir h fsys (a_path args) = Some fs1"
    and x: "existsSync fs1 (destination_of h args d)" "isFile fs1 (destination_of h args d)"
    and r: "fetched = Some res" "headers res ''accept-ranges'' = Some ''bytes''"
    by blast+
  have a: "u_acceptRange d"
    using g r by (auto simp: getData_Inr_iff)
  show "download h fsys fetched m args =
                  Inl (PrometeoError InvalidArgumentError
                         ''The path already exists. Delete the file or rename it.'')"
    unfolding download_after_argument_checks [OF assms] g
    by (simp add: v a e x)
qed

text \<open>
  On the sample platform: an origin that answers \<open>Accept-Ranges: none\<close>, and a
  destination that is already there.
\<close>

theorem download_rejections_witness:
  "(let args = \<lparr>a_url = ''http://origin/f.bin'', a_path = ''/out'', a_filename = None\<rparr>;
        none = sample_response [(''content-length'', ''10''), (''accept-ranges'', ''none'')];
        bytes = sample_response [(''content-length'', ''10''), (''accept-ranges'', ''bytes'')];
        fsys = sample_fs [''/out''] [(''/out/f.bin'', 10)]
    in a_url args \<noteq> [] \<and> a_path args \<noteq> [] \<and>
       headers none ''accept-ranges'' \<noteq> Some ''bytes'' \<and>
       (\<exists>msg. download sample_host fsys (Some none) sample_manager args =
                Inl (PrometeoError BadURLError msg)) \<and>
       URLUtils_validate sample_host (a_url args) \<and> ok bytes \<and>
       headers bytes ''accept-ranges'' = Some ''bytes'' \<and>
       isFile fsys ''/out/f.bin'' \<and>
       download sample_host fsys (Some bytes) sample_manager args =
         Inl (PrometeoError InvalidArgumentError
                ''The path already exists. Delete the file or rename it.''))"
proof -
  define args where "args = \<lparr>a_url = ''http://origin/f.bin'', a_path = ''/out'', a_filename = None\<rparr>"
  define none where "none = sample_response [(''content-length'', ''10''), (''accept-ranges'', ''none'')]"
  define bytes where "bytes = sample_response [(''content-length'', ''10''), (''accept-ranges'', ''bytes'')]"
  define fsys where "fsys = sample_fs [''/out''] [(''/out/f.bin'', 10)]"
  have a: "a_url args \<noteq> []" "a_path args \<noteq> []"
    by (simp_all add: args_def)
  have n: "headers none ''accept-ranges'' \<noteq> Some ''bytes''"
    by (simp add: none_def sample_response_def)
  have v: "URLUtils_validate sample_host (a_url args)"
    by (simp add: URLUtils_validate_def sample_host_def args_def)
  have b: "ok bytes" "headers bytes ''accept-ranges'' = Some ''bytes''"
    by (simp_all add: bytes_def sample_response_def)
  have f: "isFile fsys ''/out/f.bin''" "existsSync fsys ''/out/f.bin''" "existsSync fsys ''/out''"
    by (simp_all add: fsys_def sample_fs_def isFile_def existsSync_def)
  obtain d where d: "getData sample_host (a_url args) (Some bytes) = Inr d"
      "u_fileName d = ''f.bin''"
    by (simp add: getData_def b sample_host_def args_def Let_def)
  have dest: "destination_of sample_host args d = ''/out/f.bin''"
    by (simp add: destination_of_def finalName_of_def fileType_of_def or_else_def truthy_def d
        args_def isValidFileName_def filename_char_def sample_host_def sample_resolve_def)
  have e: "ensure_dir sample_host fsys (a_path args) = Some fsys"
    using f by (simp add: ensure_dir_def args_def)
  have 1: "\<exists>msg. download sample_host fsys (Some none) sample_manager args =
                Inl (PrometeoError BadURLError msg)"
    using download_rejections [OF a, of sample_host fsys "Some none" sample_manager] n by blast
  have 2: "download sample_host fsys (Some bytes) sample_manager args =
         Inl (PrometeoError InvalidArgumentError
                ''The path already exists. Delete the file or rename it.'')"
    using download_rejections [OF a, of sample_host fsys "Some bytes" sample_manager,
        THEN conjunct2, rule_format, of bytes d fsys] v b d e f dest
    by simp
  show ?thesis
    unfolding Let_def args_def [symmetric] none_def [symmetric] bytes_def [symmetric]
      fsys_def [symmetric]
    using a n 1 v b f 2 by simp
qed

subsection \<open>The partition of a download\<close>

lemma File_new_returns:
  assumes "\<not> trim_is_empty (o_url opts)" "\<not> trim_is_empty (o_path opts)"
    "\<not> trim_is_empty (o_destination opts)" "\<not> trim_is_empty (o_name opts)"
    "\<not> trim_is_empty (o_contentType opts)" "\<not> js_le (o_size opts) (js_int 0)"
    "\<not> js_le (o_speed opts) (js_int 0)" "ensure_dir h fsys (o_path opts) = Some fs1"
  shows "\<exists>f fs2. File_new h fsys opts = Inr (f, fs2)"
  using assms by (simp add: File_new_def Let_def)

text \<open>
  A download on the sample platform: the origin answers with the \<open>Content-Length\<close>
  \<open>cl\<close>, the manager has \<open>n\<close> connections, and the destination directory \<open>/out\<close>
  is empty.
\<close>

lemma sample_download:
  assumes "sample_number cl = Fin q" "0 < q" "n < 2 ^ 32"
  shows "\<exists>file m' fs' d t.
     getData sample_host ''http://origin/f.bin''
       (Some (sample_response [(''content-length'', cl), (''accept-ranges'', ''bytes''),
                               (''content-type'', ''application/octet-stream'')])) = Inr d \<and>
     u_size d = Fin q \<and>
     download sample_host (sample_fs [''/out''] [])
       (Some (sample_response [(''content-length'', cl), (''accept-ranges'', ''bytes''),
                               (''content-type'', ''application/octet-stream'')]))
       (sample_manager\<lparr>m_connections := n\<rparr>)
       \<lparr>a_url = ''http://origin/f.bin'', a_path = ''/out'', a_filename = None\<rparr> =
       Inr (file, m', fs') \<and>
     f_parts file = build_parts sample_resolve t ''f.bin'' (Fin q) n"
proof -
  define res where "res = sample_response [(''content-length'', cl), (''accept-ranges'', ''bytes''),
                               (''content-type'', ''application/octet-stream'')]"
  define args where "args = \<lparr>a_url = ''http://origin/f.bin'', a_path = ''/out'', a_filename = None\<rparr>"
  define d where "d = \<lparr>u_fileType = ''.bin'', u_size = Fin q, u_acceptRange = True,
      u_fileName = ''f.bin'', u_contentType = ''application/octet-stream''\<rparr>"
  define opts where "opts = \<lparr>o_url = ''http://origin/f.bin'', o_path = ''/tmp/f'', o_name = ''f.bin'',
      o_size = Fin q,
      o_parts = build_parts sample_resolve ''/tmp/f'' ''f.bin'' (Fin q) n,
      o_resumed = None, o_speed = js_int 1250000, o_destination = ''/out/f.bin'',
      o_contentType = ''application/octet-stream'', o_finished = False\<rparr>"
  define fsys where "fsys = sample_fs [''/out''] []"
  define m where "m = sample_manager\<lparr>m_connections := n\<rparr>"
  have g: "getData sample_host ''http://origin/f.bin'' (Some res) = Inr d"
    using assms(1)
    by (simp add: getData_def res_def sample_response_def sample_host_def Let_def
        sample_extname_def js_Number_def d_def)
  have a: "a_url args \<noteq> []" "a_path args \<noteq> []"
    by (simp_all add: args_def)
  have g': "getData sample_host (a_url args) (Some res) = Inr d"
    using g by (simp add: args_def)
  have v: "URLUtils_validate sample_host (a_url args)"
    by (simp add: URLUtils_validate_def sample_host_def args_def)
  have ar: "u_acceptRange d"
    by (simp add: d_def)
  have e: "ensure_dir sample_host fsys (a_path args) = Some fsys"
    by (simp add: ensure_dir_def existsSync_def fsys_def sample_fs_def args_def)
  have fn: "finalName_of sample_host args d = ''f.bin''"
    and ft: "fileType_of sample_host args d = ''.bin''"
    and dest: "destination_of sample_host args d = ''/out/f.bin''"
    by (simp_all add: destination_of_def finalName_of_def fileType_of_def or_else_def truthy_def
        d_def args_def isValidFileName_def filename_char_def sample_host_def sample_resolve_def)
  have tmp: "sample_resolve (m_tempDir m) ''f'' = ''/tmp/f''"
    by (simp add: m_def sample_manager_def sample_resolve_def)
  have nf: "\<not> existsSync fsys ''/out/f.bin''"
    by (simp add: existsSync_def fsys_def sample_fs_def)
  have r: "resolve sample_host = sample_resolve"
    by (simp add: sample_host_def)
  have mm: "m_connections m = n" "m_speedLimit m = js_int 1250000" "m_downloads m = []"
    by (simp_all add: m_def sample_manager_def)
  have ud: "u_size d = Fin q" "u_contentType d = ''application/octet-stream''"
    by (simp_all add: d_def)
  have "\<exists>f fs2. File_new sample_host fsys opts = Inr (f, fs2)"
    using assms(2)
    by (intro File_new_returns [where ?fs1.0 = "the (ensure_dir sample_host fsys ''/tmp/f'')"])
       (simp_all add: opts_def trim_is_empty_def js_whitespace_def js_int_Fin ensure_dir_def
          mkdirp_sync_def sample_host_def)
  then obtain f fs2 where f: "File_new sample_host fsys opts = Inr (f, fs2)"
    by blast
  have p: "f_parts f = build_parts sample_resolve ''/tmp/f'' ''f.bin'' (Fin q) n"
    using File_new_parts [OF f] by (simp add: opts_def)
  have o: "\<lparr>o_url = a_url args, o_path = ''/tmp/f'', o_name = ''f.bin'', o_size = Fin q,
      o_parts = build_parts sample_resolve ''/tmp/f'' ''f.bin'' (Fin q) n,
      o_resumed = None, o_speed = js_int 1250000, o_destination = ''/out/f.bin'',
      o_contentType = ''application/octet-stream'', o_finished = False\<rparr> = opts"
    by (simp add: opts_def args_def)
  have "download sample_host fsys (Some res) m args = Inr (f, m\<lparr>m_downloads := [f]\<rparr>, fs2)"
    unfolding download_after_argument_checks [OF a] g'
    using assms(3) by (simp add: v ar e fn ft dest tmp nf r mm ud o f)
  then show ?thesis
    using g p ud(1) unfolding res_def args_def fsys_def m_def by blast
qed

lemma nearest_double_2_53: "nearest_double 9007199254740992 = Fin 9007199254740992"
proof -
  have r: "round_half_even (9007199254740992 / 2 powi (53 - 52)) = 4503599627370496"
    using round_half_even_int [of 4503599627370496] by simp
  show ?thesis
    using nearest_double_eval [of 9007199254740992 53 4503599627370496, OF _ _ _ _ r]
    by simp
qed

lemma nearest_double_2_53_1: "nearest_double 9007199254740993 = Fin 9007199254740992"
proof -
  have "round_half_even (9007199254740993 / 2 powi (53 - 52)) =
      (if even (4503599627370496::int) then 4503599627370496 else 4503599627370496 + 1)"
    by (rule round_half_even_tie) simp
  then have r: "round_half_even (9007199254740993 / 2 powi (53 - 52)) = 4503599627370496"
    by simp
  show ?thesis
    using nearest_double_eval [of 9007199254740993 53 4503599627370496, OF _ _ _ _ r]
    by simp
qed

lemma nearest_double_2_53_2: "nearest_double 9007199254740994 = Fin 9007199254740994"
proof -
  have r: "round_half_even (9007199254740994 / 2 powi (53 - 52)) = 4503599627370497"
    using round_half_even_int [of 4503599627370497] by simp
  show ?thesis
    using nearest_double_eval [of 9007199254740994 53 4503599627370497, OF _ _ _ _ r]
    by simp
qed

lemma parts_2_53_2:
  "build_parts r t f (Fin 9007199254740994) 1 =
     [(0, r t (f @ ''0''), Fin 0, Fin 9007199254740992)]"
  by (simp add: build_parts_def part_entry_def Let_def js_nat_Fin js_nat_0 js_int_Fin js_sub_def
      nearest_double_2_53_1 nearest_double_2_53_2 nearest_double_0 show_simps)

text \<open>
  Claim C1 as stated fails for a size that is not below \<open>2^53\<close>. The origin reports
  9007199254740994 bytes (\<open>2^53 + 2\<close>, a double) and the manager has one connection.
  The last byte of the only range should be \<open>size - 1 = 2^53 + 1\<close>, which is no
  double: the subtraction of line 354 yields \<open>2^53\<close>, the range is \<open>[0, 2^53]\<close>, and
  its length \<open>2^53 + 1\<close> is not the size (nor is the sum the program's arithmetic
  gives, \<open>2^53\<close>).
\<close>

theorem download_size_above_2_53_counterexample:
  "(let res = sample_response [(''content-length'', ''9007199254740994''),
                               (''accept-ranges'', ''bytes''),
                               (''content-type'', ''application/octet-stream'')];
        args = \<lparr>a_url = ''http://origin/f.bin'', a_path = ''/out'', a_filename = None\<rparr>;
        m = sample_manager\<lparr>m_connections := 1\<rparr>
    in \<exists>file m' fs' d.
         getData sample_host (a_url args) (Some res) = Inr d \<and>
         u_size d = Fin 9007199254740994 \<and> m_connections m = 1 \<and>
         download sample_host (sample_fs [''/out''] []) (Some res) m args = Inr (file, m', fs') \<and>
         map (snd \<circ> snd) (f_parts file) = [(Fin 0, Fin 9007199254740992)] \<and>
         range_end (f_parts file ! (m_connections m - 1)) \<noteq> Fin (9007199254740994 - 1) \<and>
         total_length (f_parts file) = Fin 9007199254740992)"
proof -
  have n: "sample_number ''9007199254740994'' = Fin 9007199254740994"
    by (simp add: sample_number_def js_nat_def nearest_double_2_53_2)
  obtain fi m' fs' d t where
    s: "getData sample_host ''http://origin/f.bin''
          (Some (sample_response [(''content-length'', ''9007199254740994''),
                                  (''accept-ranges'', ''bytes''),
                                  (''content-type'', ''application/octet-stream'')])) = Inr d"
       "u_size d = Fin 9007199254740994"
       "download sample_host (sample_fs [''/out''] [])
          (Some (sample_response [(''content-length'', ''9007199254740994''),
                                  (''accept-ranges'', ''bytes''),
                                  (''content-type'', ''application/octet-stream'')]))
          (sample_manager\<lparr>m_connections := 1\<rparr>)
          \<lparr>a_url = ''http://origin/f.bin'', a_path = ''/out'', a_filename = None\<rparr> =
          Inr (fi, m', fs')"
       "f_parts fi = build_parts sample_resolve t ''f.bin'' (Fin 9007199254740994) 1"
    using sample_download [OF n, of 1] by auto
  have p: "f_parts fi = [(0, sample_resolve t ''f.bin0'', Fin 0, Fin 9007199254740992)]"
    unfolding s(4) parts_2_53_2 by simp
  have "total_length (f_parts fi) = Fin 9007199254740992"
    unfolding p
    by (simp add: total_length_def range_length_def range_start_def range_end_def js_sub_def
        js_int_Fin nearest_double_2_53 nearest_double_2_53_1)
  then show ?thesis
    unfolding Let_def using s(1-3) p by (auto simp: range_end_def)
qed

text \<open>
  Claim C1, amended: for a probed size \<open>s\<close> with \<open>1 \<le> s < 2^53\<close> and \<open>N \<ge> 1\<close>
  connections, the \<open>File\<close> that \<open>Prometeo.download\<close> returns has exactly \<open>N\<close>
  ranges, keyed \<open>0 .. N-1\<close>, with \<open>slice = floor (s / N)\<close>, \<open>start[i] = i * slice\<close>,
  \<open>end[i] = start[i] + slice - 1\<close> for \<open>i < N - 1\<close> and \<open>end[N-1] = s - 1\<close>, all of
  them exact integers. Hence \<open>start[0] = 0\<close>, each range starts one byte after the end
  of the one before it, an earlier range ends before a later one starts, and the lengths
  \<open>end[i] - start[i] + 1\<close> add up to \<open>s\<close>. (A count of \<open>2^32\<close> connections or more
  makes \<open>download\<close> reject, so it returns no \<open>File\<close>.)
\<close>

theorem download_parts_partition:
  assumes "download h fsys fetched m args = Inr (file, m', fs')"
    and "getData h (a_url args) fetched = Inr d"
    and "u_size d = Fin (of_int s)" and "1 \<le> s" and "s < 2 ^ 53"
    and "1 \<le> m_connections m"
  shows "(let ps = f_parts file; N = m_connections m; slice = s div int N in
      length ps = N \<and>
      (\<forall>i<N. fst (ps ! i) = i \<and> range_start (ps ! i) = Fin (of_int (int i * slice))) \<and>
      (\<forall>i. int i < int N - 1 \<longrightarrow>
          range_end (ps ! i) = Fin (of_int (int i * slice + slice - 1))) \<and>
      range_end (ps ! (N - 1)) = Fin (of_int (s - 1)) \<and>
      range_start (ps ! 0) = Fin 0 \<and>
      (\<forall>i. Suc i < N \<longrightarrow> range_start (ps ! Suc i) = js_add (range_end (ps ! i)) (js_int 1)) \<and>
      (\<forall>i j. i < j \<and> j < N \<longrightarrow> js_lt (range_end (ps ! i)) (range_start (ps ! j))) \<and>
      total_length ps = Fin (of_int s))"
proof -
  define N where "N = m_connections m"
  define ps where "ps = f_parts file"
  define sl where "sl = s div int N"
  have n: "0 < N" using assms(6) by (simp add: N_def)
  have sz: "u_size d = js_int s"
    using assms(3,4,5) by (simp add: js_int_Fin)
  obtain t where N32: "N < 2 ^ 32"
    and ps: "ps = build_parts (resolve h) t (finalName_of h args d) (js_int s) N"
    using download_Inr_parts [OF assms(1,2)] unfolding sz N_def ps_def by blast
  note pe = part_entry_int [OF assms(4,5) n N32]
  have fin: "js_int x = Fin (of_int x)" if "- 1 \<le> x" "x \<le> s" for x
  proof -
    have "\<bar>x\<bar> < 2 ^ 53" using that assms(4,5) by linarith
    then show ?thesis by (rule js_int_Fin)
  qed
  have abs: "\<bar>x\<bar> < 2 ^ 53" if "- 1 \<le> x" "x \<le> s" for x
    using that assms(4,5) by linarith
  have nth: "ps ! i = part_entry (resolve h) t (finalName_of h args d) (js_int s) N i"
    if "i < N" for i
    using that by (simp add: ps build_parts_def)
  have len: "length ps = N"
    by (simp add: ps build_parts_def)
  have st: "range_start (ps ! i) = js_int (int i * sl)"
    and ix: "fst (ps ! i) = i"
    and en: "range_end (ps ! i) = js_int (if int i = int N - 1 then s - 1 else int i * sl + sl - 1)"
    if "i < N" for i
    using that by (simp_all add: nth pe range_start_def range_end_def sl_def)
  have b: "0 \<le> sl" "0 \<le> int i * sl" "int i * sl + sl \<le> s" if "i < N" for i
    using slice_bounds [OF assms(4) n that] by (simp_all add: sl_def)
  have c2: "fst (ps ! i) = i \<and> range_start (ps ! i) = Fin (of_int (int i * sl))" if "i < N" for i
  proof -
    have "js_int (int i * sl) = Fin (of_int (int i * sl))"
      using b [OF that] by (intro fin) linarith+
    then show ?thesis
      using st [OF that] ix [OF that] by simp
  qed
  have c3: "range_end (ps ! i) = Fin (of_int (int i * sl + sl - 1))" if "int i < int N - 1" for i
  proof -
    have i: "i < N" using that by simp
    have "js_int (int i * sl + sl - 1) = Fin (of_int (int i * sl + sl - 1))"
      using b [OF i] by (intro fin) linarith+
    then show ?thesis
      using en [OF i] that by simp
  qed
  have c4: "range_end (ps ! (N - 1)) = Fin (of_int (s - 1))"
  proof -
    have "js_int (s - 1) = Fin (of_int (s - 1))"
      using assms(4) by (intro fin) linarith+
    then show ?thesis
      using en [of "N - 1"] n by (simp add: of_nat_diff)
  qed
  have c5: "range_start (ps ! 0) = Fin 0"
    using c2 [OF n] by simp
  have c6: "range_start (ps ! Suc i) = js_add (range_end (ps ! i)) (js_int 1)" if "Suc i < N" for i
  proof -
    have i: "i < N" "int i \<noteq> int N - 1" using that by simp_all
    have "js_add (js_int (int i * sl + sl - 1)) (js_int 1) = js_int (int i * sl + sl - 1 + 1)"
      using b [OF i(1)] assms(4) by (intro js_int_add abs) linarith+
    then show ?thesis
      using st [OF that] en [OF i(1)] i(2) by (simp add: algebra_simps)
  qed
  have c7: "js_lt (range_end (ps ! i)) (range_start (ps ! j))" if "i < j" "j < N" for i j
  proof -
    have i: "i < N" "int i \<noteq> int N - 1" using that by simp_all
    have "int i + 1 \<le> int j" using that by simp
    then have "(int i + 1) * sl \<le> int j * sl"
      using b(1) [OF i(1)] by (rule mult_right_mono)
    then have lt: "int i * sl + sl - 1 < int j * sl"
      by (simp add: algebra_simps)
    have "js_lt (js_int (int i * sl + sl - 1)) (js_int (int j * sl)) =
        (int i * sl + sl - 1 < int j * sl)"
      using b [OF i(1)] b [OF that(2)] assms(4) by (intro js_lt_int abs) linarith+
    then show ?thesis
      using st [OF that(2)] en [OF i(1)] i(2) lt by simp
  qed
  have c8: "total_length ps = Fin (of_int s)"
    unfolding ps total_length_parts [OF assms(4,5) n N32]
    using assms(4) by (intro fin) linarith+
  show ?thesis
    unfolding Let_def N_def [symmetric] ps_def [symmetric] sl_def [symmetric]
    using len c2 c3 c4 c5 c6 c7 c8 by blast
qed

text \<open>A download of 1000 bytes over 4 connections, on the sample platform.\<close>

theorem download_parts_partition_witness:
  "(let res = sample_response [(''content-length'', ''1000''), (''accept-ranges'', ''bytes''),
                               (''content-type'', ''application/octet-stream'')];
        args = \<lparr>a_url = ''http://origin/f.bin'', a_path = ''/out'', a_filename = None\<rparr>
    in \<exists>file m' fs' d.
         download sample_host (sample_fs [''/out''] []) (Some res) sample_manager args =
           Inr (file, m', fs') \<and>
         getData sample_host (a_url args) (Some res) = Inr d \<and>
         u_size d = Fin (of_int 1000) \<and> (1::int) \<le> 1000 \<and> (1000::int) < 2 ^ 53 \<and>
         1 \<le> m_connections sample_manager \<and>
         length (f_parts file) = 4 \<and>
         map (\<lambda>p. (range_start p, range_end p)) (f_parts file) =
           [(Fin 0, Fin 249), (Fin 250, Fin 499), (Fin 500, Fin 749), (Fin 750, Fin 999)] \<and>
         total_length (f_parts file) = Fin 1000)"
proof -
  have n: "sample_number ''1000'' = Fin 1000"
    by (simp add: sample_number_def js_nat_Fin)
  have m: "sample_manager\<lparr>m_connections := 4\<rparr> = sample_manager"
    by (simp add: sample_manager_def)
  obtain fi m' fs' d where
    s: "getData sample_host ''http://origin/f.bin''
          (Some (sample_response [(''content-length'', ''1000''), (''accept-ranges'', ''bytes''),
                                  (''content-type'', ''application/octet-stream'')])) = Inr d"
       "u_size d = Fin 1000"
       "download sample_host (sample_fs [''/out''] [])
          (Some (sample_response [(''content-length'', ''1000''), (''accept-ranges'', ''bytes''),
                                  (''content-type'', ''application/octet-stream'')]))
          sample_manager
          \<lparr>a_url = ''http://origin/f.bin'', a_path = ''/out'', a_filename = None\<rparr> =
          Inr (fi, m', fs')"
    using sample_download [OF n, of 4] unfolding m by auto
  have c: "m_connections sample_manager = 4"
    by (simp add: sample_manager_def)
  have u: "u_size d = Fin (of_int 1000)"
    using s(2) by simp
  note th = download_parts_partition [OF s(3) _ u, unfolded Let_def c, simplified, OF s(1)]
  have len: "length (f_parts fi) = 4"
    using th by simp
  have st: "range_start (f_parts fi ! i) = Fin (of_int (int i * 250))" if "i < 4" for i
    using th that by simp
  have en: "range_end (f_parts fi ! i) = Fin (of_int (int i * 250 + 249))" if "i < 3" for i
    using th that by simp
  have e3: "range_end (f_parts fi ! 3) = Fin 999"
    using th by simp
  have "f_parts fi = [f_parts fi ! 0, f_parts fi ! 1, f_parts fi ! 2, f_parts fi ! 3]"
    using len by (auto simp: list_eq_iff_nth_eq less_Suc_eq nth_Cons' numeral_eq_Suc)
  then have "map (\<lambda>p. (range_start p, range_end p)) (f_parts fi) =
      [(range_start (f_parts fi ! 0), range_end (f_parts fi ! 0)),
       (range_start (f_parts fi ! 1), range_end (f_parts fi ! 1)),
       (range_start (f_parts fi ! 2), range_end (f_parts fi ! 2)),
       (range_start (f_parts fi ! 3), range_end (f_parts fi ! 3))]"
    by (metis (no_types, lifting) list.simps(8,9))
  then have "map (\<lambda>p. (range_start p, range_end p)) (f_parts fi) =
      [(Fin 0, Fin 249), (Fin 250, Fin 499), (Fin 500, Fin 749), (Fin 750, Fin 999)]"
    using st [of 0] st [of 1] st [of 2] st [of 3] en [of 0] en [of 1] en [of 2] e3 by simp
  moreover have "total_length (f_parts fi) = Fin 1000"
    using th by simp
  ultimately show ?thesis
    unfolding Let_def using s u c len by auto
qed

subsection \<open>The manifest codec\<close>

















subsection \<open>The estimate of the progress interval\<close>

lemma floor_half: "\<lfloor>(of_int i :: rat) + 1 / 2\<rfloor> = i"
  by linarith

lemma floor_half_0: "\<lfloor>(1 :: rat) / 2\<rfloor> = 0"
  using floor_half [of 0] by simp

lemma js_round_int: "\<bar>i\<bar> < 2 ^ 53 \<Longrightarrow> js_round (js_int i) = js_int i"
  by (simp add: js_int_Fin floor_half)

lemma js_div_int_exact:
  assumes "b \<noteq> 0" "b dvd a" "\<bar>a\<bar> < 2 ^ 53" "\<bar>b\<bar> < 2 ^ 53"
  shows "js_div (js_int a) (js_int b) = js_int (a div b)"
proof -
  obtain k where k: "a = b * k"
    using assms(2) by (auto simp: dvd_def)
  have "\<bar>k\<bar> \<le> \<bar>b\<bar> * \<bar>k\<bar>"
    using assms(1) mult_right_mono [of 1 "\<bar>b\<bar>" "\<bar>k\<bar>"] by simp
  then have "\<bar>a div b\<bar> < 2 ^ 53"
    using assms(1,3) by (simp add: k abs_mult)
  moreover have q: "(of_int a :: rat) / of_int b = of_int (a div b)"
    using assms(1) by (simp add: k)
  moreover have "js_div (js_int a) (js_int b) = nearest_double (of_int a / of_int b)"
    using assms(1,3,4) by (simp add: js_int_Fin)
  ultimately show ?thesis
    by (simp only: js_int_def)
qed

lemma js_div_int_zero:
  "\<bar>a\<bar> < 2 ^ 53 \<Longrightarrow>
     js_div (js_int a) (js_int 0) = (if a = 0 then NaN else if 0 < a then PInf else NInf)"
  by (simp add: js_int_Fin)

lemmas js_int_simps = js_int_add js_int_sub js_mul_int js_round_int js_ge_int js_gt_int js_lt_int

lemma File_tick_eta:
  assumes "unfinished f \<noteq> []"
  shows "eta_of (snd (File_tick h f)) =
     Some (js_round (js_mul (js_div (js_sub (f_size f) (total_downloaded f)) (aggregate_speed f))
                            (js_int 1000)))"
proof -
  have "the_connections f \<noteq> []"
    using assms by (auto simp: unfinished_def)
  then have "f_connections f \<noteq> []"
    by (simp add: the_connections_def)
  then show ?thesis
    using assms by (simp add: File_tick_def Let_def calculateTime_def)
qed

lemma File_tick_silent:
  assumes "f_connections f = [] \<or> unfinished f = []"
  shows "eta_of (snd (File_tick h f)) = None"
  using assms by (auto simp: File_tick_def Let_def)

text \<open>
  323 bytes left at 80 bytes per second. The quotient \<open>4.0375\<close> is no double; the
  nearest one lies below it, and so does its product with 1000 after rounding,
  \<open>4037.4999999999995\<close>: the estimate is 4037 ms, where exact arithmetic gives 4037.5
  and 4038.
\<close>

lemma quotient_323_80: "nearest_double (323 / 80) = Fin (4545820873877094 / 2 ^ 50)"
proof -
  have r: "round_half_even ((323 / 80) / 2 powi (2 - 52)) = 4545820873877094"
    by (rule round_half_even_down) (simp_all add: power_int_minus_divide)
  show ?thesis
    using nearest_double_eval [of "323 / 80" 2 4545820873877094, OF _ _ _ _ r]
    by (simp add: power_int_minus_divide)
qed

lemma estimate_323_80:
  "js_round (js_mul (js_div (Fin 323) (Fin 80)) (Fin 1000)) = Fin 4037"
proof -
  have r: "round_half_even ((4545820873877094 / 2 ^ 50 * 1000) / 2 powi (11 - 52)) =
      8878556394291199"
    by (rule round_half_even_down) (simp_all add: power_int_minus_divide)
  have "nearest_double (4545820873877094 / 2 ^ 50 * 1000) = Fin (8878556394291199 / 2 ^ 41)"
    using nearest_double_eval [of "4545820873877094 / 2 ^ 50 * 1000" 11 8878556394291199,
        OF _ _ _ _ r]
    by (simp add: power_int_minus_divide)
  then show ?thesis
    by (simp add: quotient_323_80 floor_eq_iff)
qed

text \<open>
  Claim C7 as stated fails. With 150 bytes downloaded of a size of 100 and a speed of
  50, the estimate is \<open>-1000\<close>, not \<open>0\<close>; with a speed of \<open>0\<close> and all 100 bytes
  downloaded it is \<open>NaN\<close>, neither \<open>0\<close> nor \<open>+\<infinity>\<close>: \<open>calculateTime\<close> has no case
  for either.
\<close>

theorem tick_eta_counterexample:
  "(let c = (sample_connection 0 ''/tmp/f/f.bin0'' 0 99)
              \<lparr>c_speed := js_int 50, c_totalDownloaded := js_int 150\<rparr>;
        f = with_connections [c] ((init_File sample_plan)\<lparr>f_size := js_int 100\<rparr>)
    in js_ge (total_downloaded f) (f_size f) \<and>
       eta_of (snd (File_tick sample_host f)) = Some (js_int (- 1000))) \<and>
   (let c = (sample_connection 0 ''/tmp/f/f.bin0'' 0 99)
              \<lparr>c_speed := js_int 0, c_totalDownloaded := js_int 100\<rparr>;
        f = with_connections [c] ((init_File sample_plan)\<lparr>f_size := js_int 100\<rparr>)
    in aggregate_speed f = js_int 0 \<and> js_ge (total_downloaded f) (f_size f) \<and>
       eta_of (snd (File_tick sample_host f)) = Some NaN)"
  by (simp add: Let_def File_tick_def with_connections_def init_File_def sample_connection_def
      unfinished_def the_connections_def aggregate_speed_def total_downloaded_def
      calculateTime_def js_int_simps js_div_int_exact js_div_int_zero)

text \<open>
  Claim C7, amended. A run of the interval emits \<open>progress\<close> when some connection is
  not finished, and the estimate it carries is
  \<open>Math.round(((size - totalDownloaded) / speed) * 1000)\<close> in the arithmetic of
  JavaScript numbers (each of the difference, the quotient and the product rounded to
  a double, \<open>Math.round\<close> taking a tie towards \<open>+\<infinity>\<close>), where \<open>speed\<close> is the
  rounded sum of the speeds of the connections that are not finished and
  \<open>totalDownloaded\<close> the sum over all connections. It is \<open>0\<close> when
  \<open>totalDownloaded\<close> equals \<open>size\<close> and the speed is finite and not \<open>0\<close>. It is
  \<open>+\<infinity>\<close> when the speed is \<open>0\<close> and \<open>totalDownloaded\<close> and \<open>size\<close> are byte
  counts with \<open>0 \<le> totalDownloaded < size < 2^53\<close>. A run with no connection, or with
  all finished, emits nothing.
\<close>

theorem tick_eta:
  "(unfinished f \<noteq> [] \<longrightarrow>
      eta_of (snd (File_tick h f)) =
        Some (js_round (js_mul (js_div (js_sub (f_size f) (total_downloaded f))
                                       (aggregate_speed f)) (js_int 1000)))) \<and>
   (\<forall>a v. unfinished f \<noteq> [] \<and> f_size f = Fin a \<and> total_downloaded f = Fin a \<and>
        aggregate_speed f = Fin v \<and> v \<noteq> 0 \<longrightarrow>
        eta_of (snd (File_tick h f)) = Some (Fin 0)) \<and>
   (\<forall>s t. unfinished f \<noteq> [] \<and> f_size f = Fin (of_int s) \<and>
        total_downloaded f = Fin (of_int t) \<and> 0 \<le> t \<and> t < s \<and> s < 2 ^ 53 \<and>
        aggregate_speed f = Fin 0 \<longrightarrow>
        eta_of (snd (File_tick h f)) = Some PInf) \<and>
   (f_connections f = [] \<or> unfinished f = [] \<longrightarrow> eta_of (snd (File_tick h f)) = None)"
proof (intro conjI allI impI)
  assume "unfinished f \<noteq> []"
  then show "eta_of (snd (File_tick h f)) =
        Some (js_round (js_mul (js_div (js_sub (f_size f) (total_downloaded f))
                                       (aggregate_speed f)) (js_int 1000)))"
    by (rule File_tick_eta)
next
  fix a v
  assume a: "unfinished f \<noteq> [] \<and> f_size f = Fin a \<and> total_downloaded f = Fin a \<and>
        aggregate_speed f = Fin v \<and> v \<noteq> 0"
  then show "eta_of (snd (File_tick h f)) = Some (Fin 0)"
    by (simp add: File_tick_eta js_sub_def js_int_Fin nearest_double_0 floor_half_0)
next
  fix s t
  assume a: "unfinished f \<noteq> [] \<and> f_size f = Fin (of_int s) \<and>
        total_downloaded f = Fin (of_int t) \<and> 0 \<le> t \<and> t < s \<and> s < 2 ^ 53 \<and>
        aggregate_speed f = Fin 0"
  then have "\<bar>s - t\<bar> < 2 ^ 53"
    by linarith
  then have "nearest_double (of_int s - of_int t) = Fin (of_int (s - t))"
    using nearest_double_int [of "s - t"] by simp
  moreover have "(0::rat) < of_int (s - t)"
    using a by simp
  ultimately have "js_div (js_sub (f_size f) (total_downloaded f)) (aggregate_speed f) = PInf"
    using a by (simp add: js_sub_def)
  then show "eta_of (snd (File_tick h f)) = Some PInf"
    using a by (simp add: File_tick_eta js_int_Fin)
next
  assume "f_connections f = [] \<or> unfinished f = []"
  then show "eta_of (snd (File_tick h f)) = None"
    by (rule File_tick_silent)
qed

text \<open>
  323 bytes left of 400 at 80 bytes per second: 4037 ms. All 400 bytes there: 0 ms. The
  first with a speed of \<open>0\<close>: \<open>+\<infinity>\<close>.
\<close>

theorem tick_eta_witness:
  "(let c = (sample_connection 0 ''/tmp/f/f.bin0'' 0 399)
              \<lparr>c_speed := js_int 80, c_totalDownloaded := js_int 77\<rparr>;
        f = with_connections [c] ((init_File sample_plan)\<lparr>f_size := js_int 400\<rparr>);
        g = with_connections [c\<lparr>c_totalDownloaded := js_int 400\<rparr>] f;
        k = with_connections [c\<lparr>c_speed := js_int 0\<rparr>] f
    in unfinished f \<noteq> [] \<and> f_size f = Fin 400 \<and> total_downloaded f = Fin 77 \<and>
       aggregate_speed f = Fin 80 \<and>
       eta_of (snd (File_tick sample_host f)) = Some (Fin 4037) \<and>
       unfinished g \<noteq> [] \<and> f_size g = Fin 400 \<and> total_downloaded g = Fin 400 \<and>
       aggregate_speed g = Fin 80 \<and>
       eta_of (snd (File_tick sample_host g)) = Some (Fin 0) \<and>
       unfinished k \<noteq> [] \<and> f_size k = Fin 400 \<and> total_downloaded k = Fin 77 \<and>
       aggregate_speed k = Fin 0 \<and>
       eta_of (snd (File_tick sample_host k)) = Some PInf)"
proof -
  define c where "c = (sample_connection 0 ''/tmp/f/f.bin0'' 0 399)
              \<lparr>c_speed := js_int 80, c_totalDownloaded := js_int 77\<rparr>"
  define f where "f = with_connections [c] ((init_File sample_plan)\<lparr>f_size := js_int 400\<rparr>)"
  define g where "g = with_connections [c\<lparr>c_totalDownloaded := js_int 400\<rparr>] f"
  define k where "k = with_connections [c\<lparr>c_speed := js_int 0\<rparr>] f"
  have f: "unfinished f \<noteq> []" "f_size f = Fin 400" "total_downloaded f = Fin 77"
      "aggregate_speed f = Fin 80"
    by (simp_all add: f_def c_def with_connections_def init_File_def sample_connection_def
        unfinished_def the_connections_def aggregate_speed_def total_downloaded_def js_int_simps)
       (simp_all add: js_int_Fin)
  have g: "unfinished g \<noteq> []" "f_size g = Fin 400" "total_downloaded g = Fin 400"
      "aggregate_speed g = Fin 80"
    by (simp_all add: g_def f_def c_def with_connections_def init_File_def sample_connection_def
        unfinished_def the_connections_def aggregate_speed_def total_downloaded_def js_int_simps)
       (simp_all add: js_int_Fin)
  have k: "unfinished k \<noteq> []" "f_size k = Fin 400" "total_downloaded k = Fin 77"
      "aggregate_speed k = Fin 0"
    by (simp_all add: k_def f_def c_def with_connections_def init_File_def sample_connection_def
        unfinished_def the_connections_def aggregate_speed_def total_downloaded_def js_int_simps)
       (simp_all add: js_int_Fin)
  have "js_sub (Fin 400) (Fin 77) = Fin 323"
    by (simp add: js_sub_def nearest_double_simps)
  then have 1: "eta_of (snd (File_tick sample_host f)) = Some (Fin 4037)"
    using tick_eta [of f sample_host, THEN conjunct1] f estimate_323_80
    by (simp add: js_int_Fin)
  have 2: "eta_of (snd (File_tick sample_host g)) = Some (Fin 0)"
    using tick_eta [of g sample_host, THEN conjunct2, THEN conjunct1, rule_format, of 400 80] g
    by simp
  have 3: "eta_of (snd (File_tick sample_host k)) = Some PInf"
    using tick_eta [of k sample_host, THEN conjunct2, THEN conjunct2, THEN conjunct1,
        rule_format, of 400 77] k
    by simp
  show ?thesis
    unfolding Let_def c_def [symmetric] f_def [symmetric] g_def [symmetric] k_def [symmetric]
    using f g k 1 2 3 by simp
qed

subsection \<open>Speed changes\<close>

lemma js_nat_numeral: "js_nat (numeral n) = js_int (numeral n)"
  by (simp add: js_nat_int)

lemma js_nat_Suc_0: "js_nat (Suc 0) = js_int 1"
  by (simp add: js_nat_int)

lemma js_nat_2: "js_nat (Suc (Suc 0)) = js_int 2"
  by (simp add: js_nat_Fin js_nat_0 js_int_Fin js_int_0)

text \<open>
  A download of two connections at 10 Mbps, both answered, the first finished: the
  state the sample download is in after \<open>start\<close>, the two answers and the end of the
  first pipeline.
\<close>

lemma upt_0_2': "[0..<2] = [0, Suc 0]"
  by (simp add: upt_rec)

lemma sample_parts: "o_parts sample_plan =
   [(0, (''/tmp/f/f.bin0'', (js_int 0, js_int 4))), (1, (''/tmp/f/f.bin1'', (js_int 5, js_int 9)))]"
  by (simp add: sample_plan_def build_parts_def upt_0_2' part_entry_int show_simps
      sample_resolve_def)

lemma sample_running_heap:
  "map c_finished (f_heap sample_running) = [True, False]"
  "f_connections sample_running = [0, 1]"
  "f_listeners sample_running =
     [(''speed'', ConnSpeed 0), (''stop'', ConnStop 0), (''speed'', ConnSpeed 1), (''stop'', ConnStop 1)]"
  "map c_speedLimit (f_heap sample_running) = [js_int 625000, js_int 625000]"
  "map c_throttle (f_heap sample_running) =
     [Some (new_Throttle (js_int 625000)), Some (new_Throttle (js_int 625000))]"
  "f_speed sample_running = js_int 1250000"
  by (simp_all add: sample_running_def run_ops_def File_start_def Let_def init_File_def
      sample_plan_def [unfolded sample_parts [unfolded sample_plan_def, simplified]]
      sample_fs_def URLUtils_validate_def sample_host_def spawn_def new_Connection_def
      Connection_start_def partSize_of_def js_add_int_nat js_ge_int set_conn_def
      File_conn_events_def File_conn_event_def File_log_def Writer_write_def new_Writer_def
      Connection_answered_def conn_callback_def Connection_finished_def Connection_log_def
      js_nat_2 js_div_int_exact)

lemmas sample_running_simps =
  sample_running_def run_ops_def File_start_def Let_def init_File_def
  sample_plan_def [unfolded sample_parts [unfolded sample_plan_def, simplified]]
  sample_fs_def URLUtils_validate_def sample_host_def spawn_def new_Connection_def
  Connection_start_def partSize_of_def js_add_int_nat js_ge_int set_conn_def
  File_conn_events_def File_conn_event_def File_log_def Writer_write_def new_Writer_def
  Connection_answered_def conn_callback_def Connection_finished_def Connection_log_def
  js_nat_2 js_nat_Suc_0 js_nat_numeral js_div_int_exact

text \<open>
  Claim C8, at the input where the program departs from it. \<open>Prometeo.setSpeed(5)\<close>
  sets the ceiling to \<open>5 * 125000 = 625000\<close> and hands it to the download, as the
  claim says. The download has two connections, the first finished, so one is active
  and the claim gives it \<open>625000 / 1\<close>. \<open>File.setSpeed\<close> divides by
  \<open>connections.length\<close>, which counts the finished connection too: the active
  connection and its throttle get \<open>312500\<close>. The observer, in the same state, divides
  the speed of the download by the count of connections that are not finished
  (\<open>1250000 / 1\<close>).
\<close>

theorem setSpeed_counts_finished_connections:
  "map c_finished (f_heap sample_running) = [True, False] \<and>
   f_connections sample_running = [0, 1] \<and>
   (case Prometeo_setSpeed sample_host (js_int 5)
           (sample_manager\<lparr>m_downloads := [sample_running]\<rparr>) of
      Inl e \<Rightarrow> False
    | Inr m \<Rightarrow>
        m_speedLimit m = js_int 625000 \<and>
        map f_speed (m_downloads m) = [js_int 625000] \<and>
        map (map c_speedLimit \<circ> f_heap) (m_downloads m) = [[js_int 625000, js_int 312500]] \<and>
        map (map c_throttle \<circ> f_heap) (m_downloads m) =
          [[Some (new_Throttle (js_int 625000)),
            Some \<lparr>th_chunksize = js_int 312500,
                  th_bucket = Some (js_int 312500, js_int 312500)\<rparr>]]) \<and>
   map c_speedLimit
     (f_heap (fst (snd (observer sample_host None True None
                          (sample_running, sample_fs [''/tmp/f''] []))))) =
     [js_int 625000, js_int 1250000]"
  by (simp add: sample_running_simps sample_manager_def Prometeo_setSpeed_def
      File_setSpeed_def File_emit_def on_speed_def Throttle_set_def new_Throttle_def
      js_mul_int js_le_int js_isNaN_int observer_def unfinished_def the_connections_def)

subsection \<open>The \<open>progress\<close> field of a download\<close>

lemma fold_keeps:
  assumes "\<And>x g. P (step x g) = P g"
  shows "P (fold step xs f) = P f"
  using assms by (induction xs arbitrary: f) simp_all

lemma progress_File_log [simp]: "f_progress (File_log msg f) = f_progress f"
  by (simp add: File_log_def)

lemma progress_File_conn_event [simp]: "f_progress (File_conn_event i ev f) = f_progress f"
  by (cases ev) (simp_all add: File_conn_event_def)

lemma progress_File_conn_events [simp]: "f_progress (File_conn_events i evs f) = f_progress f"
  unfolding File_conn_events_def by (rule fold_keeps) simp

lemma progress_set_conn [simp]: "f_progress (set_conn i c f) = f_progress f"
  by (simp add: set_conn_def)

lemma progress_on_speed [simp]: "f_progress (on_speed h i v f) = f_progress f"
  by (simp add: on_speed_def Let_def)

lemma progress_on_stop [simp]: "f_progress (on_stop i f) = f_progress f"
  by (simp add: on_stop_def Let_def)

lemma progress_run_listener [simp]: "f_progress (run_listener h l ev f) = f_progress f"
  by (induction h l ev f rule: run_listener.induct) simp_all

lemma progress_File_emit [simp]: "f_progress (File_emit h ev f) = f_progress f"
  unfolding File_emit_def by (rule fold_keeps) (simp split: prod.split)

lemma progress_File_setSpeed:
  "File_setSpeed h v f = Inr g \<Longrightarrow> f_progress g = f_progress f"
  by (auto simp: File_setSpeed_def split: if_splits)

lemma progress_File_stop [simp]: "f_progress (fst (File_stop h f)) = f_progress f"
  by (simp add: File_stop_def Let_def)

lemma progress_resolve_if_drained [simp]: "f_progress (resolve_if_drained k f) = f_progress f"
  by (simp add: resolve_if_drained_def resolve_stop_def)

lemma progress_run_writer_listener [simp]: "f_progress (run_writer_listener l f) = f_progress f"
  by (cases l) simp_all

lemma progress_Writer_emit [simp]: "f_progress (Writer_emit n f) = f_progress f"
  unfolding Writer_emit_def by (rule fold_keeps) (simp split: prod.split)

lemma progress_write_callback [simp]: "f_progress (write_callback f) = f_progress f"
  by (simp add: write_callback_def)

lemma progress_File_tick [simp]: "f_progress (fst (File_tick h f)) = f_progress f"
  by (simp add: File_tick_def Let_def)

lemma progress_spawn [simp]: "f_progress (fst (spawn h fsys part st)) = f_progress (fst st)"
  by (simp add: spawn_def Let_def)

lemma progress_fold_spawn: "f_progress (fst (fold (spawn h fsys) ps st)) = f_progress (fst st)"
  by (induction ps arbitrary: st) simp_all

lemma progress_File_start [simp]: "f_progress (fst (File_start h fsys f)) = f_progress f"
  by (simp add: File_start_def Let_def progress_fold_spawn split: option.split)

lemma progress_composeFile [simp]:
  "f_progress (fst (snd (composeFile failure ps p st))) = f_progress (fst st)"
  by (simp add: composeFile_def Let_def split: option.split list.split)

lemma progress_cleanup [simp]: "f_progress (fst (cleanup h removed st)) = f_progress (fst st)"
  by (simp add: cleanup_def Let_def)

lemma progress_observer [simp]:
  "f_progress (fst (snd (observer h failure removed prev st))) = f_progress (fst st)"
  by (simp add: observer_def Let_def split: option.split sum.split exn.split)

lemma progress_conn_callback [simp]: "f_progress (conn_callback i cb f) = f_progress f"
  by (simp add: conn_callback_def Let_def)

lemma progress_apply_op: "f_progress (apply_op h op f) = f_progress f"
  by (cases op)
     (simp_all add: stop_timer_def Connection_answered_def progress_File_setSpeed
        split: sum.split)

lemma progress_File_new:
  "File_new h fsys opts = Inr (f, fs') \<Longrightarrow> f_progress f = js_int 0"
  by (auto simp: File_new_def Let_def init_File_def split: if_splits option.splits)

text \<open>
  Claim C10. The constructor sets \<open>progress\<close> to \<open>0\<close>, and nothing that happens to the
  download afterwards assigns it: not \<open>start\<close>, \<open>stop\<close>, \<open>setSpeed\<close>, the observer,
  \<open>composeFile\<close>, \<open>cleanup\<close>, nor any callback of its timers, of its log writer or of
  its connections. So \<open>progress\<close> is \<open>0\<close> whenever it is read.
\<close>

theorem progress_stays_zero:
  "File_new h fsys opts = Inr (f, fs') \<longrightarrow>
     f_progress f = js_int 0 \<and> (\<forall>ops. f_progress (run_ops h ops f) = js_int 0)"
proof
  assume new: "File_new h fsys opts = Inr (f, fs')"
  have "f_progress (run_ops h ops f) = f_progress f" for ops
    unfolding run_ops_def by (rule fold_keeps) (rule progress_apply_op)
  then show "f_progress f = js_int 0 \<and> (\<forall>ops. f_progress (run_ops h ops f) = js_int 0)"
    using progress_File_new [OF new] by simp
qed

text \<open>
  The sample download, constructed, started, slowed down, stopped, with a progress
  event and a timer in between.
\<close>

theorem progress_stays_zero_witness:
  "(\<exists>f fs'. File_new sample_host (sample_fs [''/tmp/f''] []) sample_plan = Inr (f, fs') \<and>
       f_progress f = js_int 0 \<and>
       f_progress
         (run_ops sample_host
            [OpStart (sample_fs [''/tmp/f''] []), OpAnswered 0,
             OpProgress 0 \<lparr>pe_rate = Some (js_int 50), pe_progress = Some (Fin (1 / 2)),
                           pe_loaded = js_int 2\<rparr>,
             OpTick, OpSetSpeed (js_int 625000), OpStop, OpStopTimer 0, OpWriteCallback,
             OpObserver (sample_fs [''/tmp/f''] []) None True None] f) = js_int 0)"
proof -
  have "\<not> js_le (js_int 10) (js_int 0)" "\<not> js_le (js_int 1250000) (js_int 0)"
    by (simp_all add: js_le_int)
  then obtain f fs' where
    new: "File_new sample_host (sample_fs [''/tmp/f''] []) sample_plan = Inr (f, fs')"
    by (simp add: File_new_def sample_plan_def trim_is_empty_def js_whitespace_def
        ensure_dir_def existsSync_def sample_fs_def Let_def)
  show ?thesis
    using progress_stays_zero [of sample_host "sample_fs [''/tmp/f''] []" sample_plan f fs'] new
    by blast
qed

subsection \<open>The promise of \<open>stop\<close>\<close>

text \<open>
  The program registers listeners on the log writer under \<open>"writed"\<close> and
  \<open>"finish"\<close> only, and the writer emits \<open>"write"\<close>. Where no listener is
  registered under \<open>"write"\<close>, the callback of a write resolves no promise, however
  many follow.
\<close>

lemma fold_no_match:
  assumes "n \<notin> fst ` set ls"
  shows "fold (\<lambda>(m, l) g. if m = n then step l g else g) ls f = f"
  using assms by (induction ls arbitrary: f) auto

lemma write_callback_unheard:
  assumes "''write'' \<notin> fst ` set (w_listeners (f_logStream f))"
  shows "write_callback f =
     f\<lparr>f_logStream := (f_logStream f)\<lparr>w_pendingWrites := w_pendingWrites (f_logStream f) - 1\<rparr>\<rparr>"
  using assms by (simp add: write_callback_def Writer_emit_def fold_no_match)

lemma write_callbacks_resolve_nothing:
  assumes "''write'' \<notin> fst ` set (w_listeners (f_logStream f))"
  shows "f_stopPromises (after_stop k (replicate n WriteCallback) f) = f_stopPromises f"
  using assms
proof (induction n arbitrary: f)
  case 0
  then show ?case by simp
next
  case (Suc n)
  have "''write'' \<notin> fst ` set (w_listeners (f_logStream (write_callback f)))"
    using Suc.prems by (simp add: write_callback_unheard)
  then have "f_stopPromises (after_stop k (replicate n WriteCallback) (write_callback f)) =
      f_stopPromises (write_callback f)"
    by (rule Suc.IH)
  then show ?case
    using Suc.prems by (simp add: write_callback_unheard)
qed

lemma timer_with_pending_writes:
  "w_pendingWrites (f_logStream f) \<noteq> 0 \<Longrightarrow> stop_timer k f = f"
  by (simp add: stop_timer_def resolve_if_drained_def)

lemma stop_unresolved_after_timer:
  assumes "''write'' \<notin> fst ` set (w_listeners (f_logStream f))"
    and "w_pendingWrites (f_logStream f) \<noteq> 0"
  shows "f_stopPromises (after_stop k (Timer1000 # replicate n WriteCallback) f) = f_stopPromises f"
  using assms by (simp add: timer_with_pending_writes write_callbacks_resolve_nothing)

lemma write_callbacks_unheard:
  assumes "''write'' \<notin> fst ` set (w_listeners (f_logStream f))"
  shows "after_stop k (replicate n WriteCallback) f =
     f\<lparr>f_logStream :=
          (f_logStream f)\<lparr>w_pendingWrites := w_pendingWrites (f_logStream f) - int n\<rparr>\<rparr>"
  using assms
proof (induction n arbitrary: f)
  case 0
  then show ?case by simp
next
  case (Suc n)
  have "''write'' \<notin> fst ` set (w_listeners (f_logStream (write_callback f)))"
    using Suc.prems by (simp add: write_callback_unheard)
  from Suc.IH [OF this] show ?case
    using Suc.prems by (simp add: write_callback_unheard)
qed

lemma sample_stop:
  "snd (File_stop sample_host sample_running) = 0"
  "f_stoped (fst (File_stop sample_host sample_running))"
  "w_pendingWrites (f_logStream (fst (File_stop sample_host sample_running))) = 6"
  "w_listeners (f_logStream (fst (File_stop sample_host sample_running))) =
     [(''writed'', StopDrained 0)]"
  "f_stopPromises (fst (File_stop sample_host sample_running)) = [False]"
  by (simp_all add: sample_running_simps File_stop_def Writer_on_def File_emit_def on_stop_def)

text \<open>
  Claim C4, at the input where the program departs from it. \<open>stop\<close> is called on
  the running sample download: four log writes are pending and the stop of the active
  connection adds two. The claim has the promise resolve once the writes have drained,
  and at the latest when the timer of 1000 ms fires, whatever is pending. In the
  program the timer resolves only if \<open>pendingWrites === 0\<close> (line 285), and the
  listener for the drained queue is registered under \<open>"writed"\<close> (line 276) while the
  writer emits \<open>"write"\<close>. So when the timer fires before the six callbacks, the
  promise is still pending after the last of them, with nothing left to resolve it; and
  when the callbacks come first, the drained queue resolves nothing until the timer
  fires.
\<close>

theorem stop_pending_after_timer:
  "(let g = fst (File_stop sample_host sample_running);
        k = snd (File_stop sample_host sample_running);
        late = after_stop k (Timer1000 # replicate 6 WriteCallback) g;
        drained = after_stop k (replicate 6 WriteCallback) g
    in k = 0 \<and> f_stoped g \<and> w_pendingWrites (f_logStream g) = 6 \<and>
       w_listeners (f_logStream g) = [(''writed'', StopDrained 0)] \<and>
       f_stopPromises g = [False] \<and>
       w_pendingWrites (f_logStream late) = 0 \<and> f_stopPromises late = [False] \<and>
       w_pendingWrites (f_logStream drained) = 0 \<and> f_stopPromises drained = [False] \<and>
       f_stopPromises (stop_timer k drained) = [True])"
proof -
  define g where "g = fst (File_stop sample_host sample_running)"
  define k where "k = snd (File_stop sample_host sample_running)"
  have k: "k = 0" and st: "f_stoped g" and p: "w_pendingWrites (f_logStream g) = 6"
    and l: "w_listeners (f_logStream g) = [(''writed'', StopDrained 0)]"
    and s: "f_stopPromises g = [False]"
    unfolding g_def k_def by (rule sample_stop)+
  have unheard: "''write'' \<notin> fst ` set (w_listeners (f_logStream g))"
    by (simp add: l)
  have drained: "after_stop k (replicate 6 WriteCallback) g =
      g\<lparr>f_logStream := (f_logStream g)\<lparr>w_pendingWrites := 0\<rparr>\<rparr>"
    by (simp add: write_callbacks_unheard [OF unheard] p)
  have late: "after_stop k (Timer1000 # replicate 6 WriteCallback) g =
      g\<lparr>f_logStream := (f_logStream g)\<lparr>w_pendingWrites := 0\<rparr>\<rparr>"
    using drained by (simp add: timer_with_pending_writes p)
  show ?thesis
    unfolding Let_def g_def [symmetric] k_def [symmetric] late drained
    by (simp add: k st p l s stop_timer_def resolve_if_drained_def resolve_stop_def)
qed

end
